theory Spec2Isabelle
  imports Complex_Main "HOL-Library.AList"
begin

section \<open>Shared data: slots, bodies, projectiles, the hit test\<close>

text \<open>
  The repository holds three generations of one server. \<^verbatim>\<open>src/server.js\<close> is the
  variant with the energy clamp, the game-over flag, the winner and the rematch;
  \<^verbatim>\<open>src/unnamed/part_000\<close> is the variant with heat, maps and the countdown. The
  definitions of \<^verbatim>\<open>server.js\<close> keep the source's names; those of \<^verbatim>\<open>part_000\<close>
  carry the suffix \<open>_p0\<close>, since both files define \<open>Gun\<close>, \<open>shoot\<close>, \<open>update\<close>
  and \<open>createRoom\<close>. \<^verbatim>\<open>src/unnamed/part_001\<close> is the earliest variant (no hit test, no
  phases, no walls); nothing below is about it.

  JavaScript numbers are modelled as \<open>real\<close> (no rounding, no NaN, no infinity),
  \<^verbatim>\<open>Date.now()\<close> as an \<open>int\<close> parameter (milliseconds), and every call of
  \<^verbatim>\<open>Math.random()\<close> as a \<open>real\<close> parameter holding the value the call returns. The
  transport is left out: a message arrives parsed, and of the frames sent only the
  \<open>joined\<close> replies are kept.
\<close>

datatype slot = Blue | White

fun opponent :: "slot \<Rightarrow> slot" where
  "opponent Blue = White"
| "opponent White = Blue"

text \<open>
  Bullets and guns are plain objects with the fields \<open>x\<close>, \<open>y\<close>, \<open>vx\<close>, \<open>vy\<close>;
  \<open>hit\<close> reads those fields of both. Extensible records give the same structural typing.
\<close>

record body =
  x :: real
  y :: real
  vx :: real
  vy :: real

text \<open>
  In \<^verbatim>\<open>server.js\<close> the owner of a bullet is the \<open>Gun\<close> object that fired it and
  the tick compares it by identity with \<open>room.players.blue\<close> and \<open>room.players.white\<close>.
  A bullet is only ever pushed by \<open>room.players[p].shoot(room.bullets)\<close>, and the two
  player objects are replaced only by \<open>resetRoom\<close>, which empties \<open>room.bullets\<close> in the
  same call; so the owner of every bullet of a room is one of the room's two current
  player objects, and the identity is modelled by the slot of that player. In
  \<^verbatim>\<open>part_000\<close> the owner is the string \<open>ws.player\<close> itself.
\<close>

record bullet = body +
  owner :: slot

record gun = body +
  angle :: real
  av :: real
  radius :: real

record gun_p0 = gun +
  heat :: real
  overheated :: bool
  overheatUntil :: int

definition hit :: "('a body_scheme) \<Rightarrow> ('b body_scheme) \<Rightarrow> bool" where
  "hit b g \<longleftrightarrow> \<bar>x b - x g\<bar> < 20 \<and> \<bar>y b - y g\<bar> < 20"

text \<open>\<^verbatim>\<open>arr.splice(i, 1)\<close>: the element at index \<open>i\<close> is removed, the rest shifts down.\<close>

definition splice :: "nat \<Rightarrow> 'a list \<Rightarrow> 'a list" where
  "splice i xs = take i xs @ drop (Suc i) xs"

text \<open>\<^verbatim>\<open>Math.hypot(a, b)\<close>.\<close>

definition hypot :: "real \<Rightarrow> real \<Rightarrow> real" where
  "hypot a b = sqrt (a\<^sup>2 + b\<^sup>2)"

section \<open>\<^verbatim>\<open>server.js\<close>: the gun\<close>

definition GRAVITY :: real where "GRAVITY = 0.02"
definition RECOIL_FORCE :: real where "RECOIL_FORCE = 3.2"
definition BULLET_SPEED :: real where "BULLET_SPEED = 9"
definition WALL_RESTITUTION :: real where "WALL_RESTITUTION = 0.85"
definition ANGULAR_TRANSFER :: real where "ANGULAR_TRANSFER = 0.015"
definition ROTATION_DAMPING :: real where "ROTATION_DAMPING = 0.992"
definition LINEAR_DAMPING :: real where "LINEAR_DAMPING = 0.998"
definition MAX_SPEED :: real where "MAX_SPEED = 7.5"
definition MAX_ANGULAR_SPEED :: real where "MAX_ANGULAR_SPEED = 0.22"
definition WIDTH :: real where "WIDTH = 420"
definition HEIGHT :: real where "HEIGHT = 640"

text \<open>The constructor; \<open>rnd\<close> is the value of its one \<^verbatim>\<open>Math.random()\<close>.\<close>

definition Gun :: "real \<Rightarrow> real \<Rightarrow> real \<Rightarrow> gun" where
  "Gun x0 y0 rnd =
     \<lparr> x = x0, y = y0, vx = 0, vy = 0, angle = rnd * pi * 2, av = 0, radius = 20 \<rparr>"

text \<open>
  \<open>shoot\<close> pushes a bullet and recoils. \<open>self\<close> is the slot whose player object
  \<open>this\<close> is (the bullet's \<open>owner: this\<close>), \<open>rnd\<close> the value of \<^verbatim>\<open>Math.random()\<close>.
\<close>

definition shoot :: "slot \<Rightarrow> real \<Rightarrow> gun \<Rightarrow> bullet list \<Rightarrow> gun \<times> bullet list" where
  "shoot self rnd g bs =
     (let a = angle g;
          bs' = bs @ [\<lparr> x = x g + cos a * 32, y = y g + sin a * 32,
                       vx = cos a * BULLET_SPEED, vy = sin a * BULLET_SPEED,
                       owner = self \<rparr>];
          g1 = g\<lparr> vx := vx g - cos a * RECOIL_FORCE \<rparr>;
          g2 = g1\<lparr> vy := vy g1 - sin a * RECOIL_FORCE \<rparr>;
          g3 = g2\<lparr> av := av g2 - (rnd - 0.5) * 0.06 \<rparr>
      in (g3, bs'))"

definition applyWallCollision :: "real \<Rightarrow> real \<Rightarrow> gun \<Rightarrow> gun" where
  "applyWallCollision nx ny g =
     (let dot = vx g * nx + vy g * ny in
      if dot < 0 then
        (let g1 = g\<lparr> vx := vx g - 2 * dot * nx \<rparr>;
             g2 = g1\<lparr> vy := vy g1 - 2 * dot * ny \<rparr>;
             g3 = g2\<lparr> vx := vx g2 * WALL_RESTITUTION \<rparr>;
             g4 = g3\<lparr> vy := vy g3 * WALL_RESTITUTION \<rparr>
         in g4\<lparr> av := av g4 + dot * ANGULAR_TRANSFER \<rparr>)
      else g)"

text \<open>
  \<open>update\<close> in the three stages its comments name: gravity, integration and damping;
  the energy clamp; the four walls.
\<close>

definition update_integrate :: "gun \<Rightarrow> gun" where
  "update_integrate g =
     (let g1 = g\<lparr> vy := vy g + GRAVITY \<rparr>;
          g2 = g1\<lparr> x := x g1 + vx g1 \<rparr>;
          g3 = g2\<lparr> y := y g2 + vy g2 \<rparr>;
          g4 = g3\<lparr> angle := angle g3 + av g3 \<rparr>;
          g5 = g4\<lparr> vx := vx g4 * LINEAR_DAMPING \<rparr>;
          g6 = g5\<lparr> vy := vy g5 * LINEAR_DAMPING \<rparr>
      in g6\<lparr> av := av g6 * ROTATION_DAMPING \<rparr>)"

definition update_clamp :: "gun \<Rightarrow> gun" where
  "update_clamp g =
     (let speed = hypot (vx g) (vy g);
          g1 = (if speed > MAX_SPEED
                then (let s = MAX_SPEED / speed in g\<lparr> vx := vx g * s, vy := vy g * s \<rparr>)
                else g);
          g2 = (if av g1 > MAX_ANGULAR_SPEED then g1\<lparr> av := MAX_ANGULAR_SPEED \<rparr> else g1)
      in if av g2 < - MAX_ANGULAR_SPEED then g2\<lparr> av := - MAX_ANGULAR_SPEED \<rparr> else g2)"

definition update_walls :: "gun \<Rightarrow> gun" where
  "update_walls g =
     (let g1 = (if x g - radius g < 0
                then applyWallCollision 1 0 (g\<lparr> x := radius g \<rparr>) else g);
          g2 = (if x g1 + radius g1 > WIDTH
                then applyWallCollision (-1) 0 (g1\<lparr> x := WIDTH - radius g1 \<rparr>) else g1);
          g3 = (if y g2 - radius g2 < 0
                then applyWallCollision 0 1 (g2\<lparr> y := radius g2 \<rparr>) else g2)
      in if y g3 + radius g3 > HEIGHT
         then applyWallCollision 0 (-1) (g3\<lparr> y := HEIGHT - radius g3 \<rparr>) else g3)"

definition update :: "gun \<Rightarrow> gun" where
  "update g = update_walls (update_clamp (update_integrate g))"

section \<open>\<^verbatim>\<open>server.js\<close>: rooms, messages, the tick\<close>

type_synonym conn = nat

text \<open>
  The two fields the handlers add to a connection object: \<open>ws.room\<close> and \<open>ws.player\<close>
  (\<open>None\<close> is \<^verbatim>\<open>undefined\<close>).
\<close>

record ws =
  room :: "string option"
  player :: "slot option"

record room =
  players :: "slot \<Rightarrow> gun"
  bullets :: "bullet list"
  clients :: "slot \<Rightarrow> conn option"
  gameOver :: bool
  winner :: "slot option"
  rematchReady :: "slot \<Rightarrow> bool"

text \<open>
  \<open>rooms\<close> is an object used as a dictionary: the association list keeps its insertion
  order, which is the order of \<^verbatim>\<open>Object.values(rooms)\<close>. A property key is a string,
  so \<^verbatim>\<open>rooms[undefined]\<close> reads the key \<^verbatim>\<open>"undefined"\<close>. Room identifiers are taken to
  be strings or absent, and not names that \<^verbatim>\<open>Object.prototype\<close> defines.
\<close>

definition prop_key :: "string option \<Rightarrow> string" where
  "prop_key k = (case k of None \<Rightarrow> ''undefined'' | Some s \<Rightarrow> s)"

record server =
  rooms :: "(string \<times> room) list"
  conns :: "conn \<Rightarrow> ws"

datatype js_error = TypeError

text \<open>
  A parsed message: \<open>data.type\<close> with the fields the handlers read (\<open>data.room\<close>, and
  \<open>data.map\<close> in \<^verbatim>\<open>part_000\<close>). \<open>Other\<close> is any other type.
\<close>

datatype msg =
    Create "string option" "string option"
  | Join "string option"
  | ShootMsg
  | Rematch
  | Other

text \<open>The frames a handler sends back on the connection.\<close>

datatype frame = Joined slot

definition createRoom :: "real \<Rightarrow> real \<Rightarrow> room" where
  "createRoom rb rw =
     \<lparr> players = (\<lambda>s. case s of Blue \<Rightarrow> Gun 90 (HEIGHT - 120) rb
                               | White \<Rightarrow> Gun (WIDTH - 90) (HEIGHT - 120) rw),
       bullets = [],
       clients = (\<lambda>s. None),
       gameOver = False,
       winner = None,
       rematchReady = (\<lambda>s. False) \<rparr>"

definition resetRoom :: "real \<Rightarrow> real \<Rightarrow> room \<Rightarrow> room" where
  "resetRoom rb rw r =
     (let r1 = r\<lparr> players := (players r)(Blue := Gun 90 (HEIGHT - 120) rb) \<rparr>;
          r2 = r1\<lparr> players := (players r1)(White := Gun (WIDTH - 90) (HEIGHT - 120) rw) \<rparr>;
          r3 = r2\<lparr> bullets := [] \<rparr>;
          r4 = r3\<lparr> gameOver := False \<rparr>;
          r5 = r4\<lparr> winner := None \<rparr>;
          r6 = r5\<lparr> rematchReady := (rematchReady r5)(Blue := False) \<rparr>
      in r6\<lparr> rematchReady := (rematchReady r6)(White := False) \<rparr>)"

text \<open>\<^verbatim>\<open>Object.keys(room.clients).length\<close>.\<close>

definition num_keys :: "(slot \<Rightarrow> conn option) \<Rightarrow> nat" where
  "num_keys cl = (if cl Blue = None then 0 else 1) + (if cl White = None then 0 else 1)"

text \<open>
  The \<open>join\<close> branch; \<open>rb\<close> and \<open>rw\<close> are the two random values \<open>createRoom\<close> draws
  when the room does not exist yet.
\<close>

definition on_join :: "conn \<Rightarrow> string option \<Rightarrow> real \<Rightarrow> real \<Rightarrow> server \<Rightarrow> js_error + (server \<times> frame list)" where
  "on_join c dr rb rw st =
     (let key = prop_key dr;
          rm = (case map_of (rooms st) key of None \<Rightarrow> createRoom rb rw | Some r \<Rightarrow> r);
          st1 = st\<lparr> rooms := AList.update key rm (rooms st) \<rparr>
      in if num_keys (clients rm) \<ge> 2 then Inr (st1, [])
         else
           (let p = (if clients rm Blue \<noteq> None then White else Blue);
                w = (conns st1 c)\<lparr> room := dr, player := Some p \<rparr>;
                rm1 = rm\<lparr> clients := (clients rm)(p := Some c) \<rparr>
            in Inr (st1\<lparr> rooms := AList.update key rm1 (rooms st1),
                          conns := (conns st1)(c := w) \<rparr>, [Joined p])))"

text \<open>
  The \<open>shoot\<close> branch. \<open>room.players[ws.player]\<close> is \<^verbatim>\<open>undefined\<close> when
  \<open>ws.player\<close> is, and calling \<open>.shoot\<close> on it throws a \<open>TypeError\<close>.
\<close>

definition on_shoot :: "conn \<Rightarrow> real \<Rightarrow> server \<Rightarrow> js_error + (server \<times> frame list)" where
  "on_shoot c rnd st =
     (let w = conns st c; key = prop_key (room w) in
      case map_of (rooms st) key of
        None \<Rightarrow> Inr (st, [])
      | Some rm \<Rightarrow>
          if gameOver rm then Inr (st, [])
          else
            (case player w of
               None \<Rightarrow> Inl TypeError
             | Some p \<Rightarrow>
                 (let (g', bs') = shoot p rnd (players rm p) (bullets rm);
                      rm1 = rm\<lparr> players := (players rm)(p := g'), bullets := bs' \<rparr>
                  in Inr (st\<lparr> rooms := AList.update key rm1 (rooms st) \<rparr>, []))))"

text \<open>
  The \<open>rematch\<close> branch. With \<open>ws.player\<close> undefined the assignment
  \<open>room.rematchReady[ws.player] = true\<close> writes a property that nothing reads.
\<close>

definition on_rematch :: "conn \<Rightarrow> real \<Rightarrow> real \<Rightarrow> server \<Rightarrow> js_error + (server \<times> frame list)" where
  "on_rematch c rb rw st =
     (let w = conns st c; key = prop_key (room w) in
      case map_of (rooms st) key of
        None \<Rightarrow> Inr (st, [])
      | Some rm \<Rightarrow>
          if \<not> gameOver rm then Inr (st, [])
          else
            (let rm1 = (case player w of
                          None \<Rightarrow> rm
                        | Some p \<Rightarrow> rm\<lparr> rematchReady := (rematchReady rm)(p := True) \<rparr>);
                 rm2 = (if rematchReady rm1 Blue \<and> rematchReady rm1 White
                        then resetRoom rb rw rm1 else rm1)
             in Inr (st\<lparr> rooms := AList.update key rm2 (rooms st) \<rparr>, [])))"

fun on_message :: "conn \<Rightarrow> msg \<Rightarrow> real \<Rightarrow> real \<Rightarrow> server \<Rightarrow> js_error + (server \<times> frame list)" where
  "on_message c (Join dr) r1 r2 st = on_join c dr r1 r2 st"
| "on_message c ShootMsg r1 r2 st = on_shoot c r1 st"
| "on_message c Rematch r1 r2 st = on_rematch c r1 r2 st"
| "on_message c m r1 r2 st = Inr (st, [])"

text \<open>
  The callback of \<open>room.bullets.forEach((b, i) => ...)\<close> at index \<open>i\<close>: advance the
  bullet, test it against both players, splice it out when it has left the arena.
\<close>

definition bullet_callback :: "nat \<Rightarrow> room \<Rightarrow> room" where
  "bullet_callback i r =
     (let b = bullets r ! i;
          b1 = b\<lparr> x := x b + vx b \<rparr>;
          b2 = b1\<lparr> y := y b1 + vy b1 \<rparr>;
          r1 = r\<lparr> bullets := (bullets r)[i := b2] \<rparr>;
          r2 = (if owner b2 \<noteq> Blue \<and> hit b2 (players r1 Blue)
                then r1\<lparr> gameOver := True, winner := Some White \<rparr> else r1);
          r3 = (if owner b2 \<noteq> White \<and> hit b2 (players r2 White)
                then r2\<lparr> gameOver := True, winner := Some Blue \<rparr> else r2)
      in if x b2 < 0 \<or> x b2 > WIDTH \<or> y b2 < 0 \<or> y b2 > HEIGHT
         then r3\<lparr> bullets := splice i (bullets r3) \<rparr> else r3)"

text \<open>
  \<^verbatim>\<open>Array.prototype.forEach\<close> reads the length once and visits the indices
  \<open>0, ..., len - 1\<close> in order, calling the callback on the element an index holds at that
  moment and passing over an index the array no longer has. \<open>bullets_forEach n k\<close> is the
  loop with \<open>n\<close> indices left, the next one being \<open>k\<close>.
\<close>

fun bullets_forEach :: "nat \<Rightarrow> nat \<Rightarrow> room \<Rightarrow> room" where
  "bullets_forEach 0 k r = r"
| "bullets_forEach (Suc n) k r =
     bullets_forEach n (Suc k) (if k < length (bullets r) then bullet_callback k r else r)"

text \<open>One room's share of the interval callback (the broadcast of the state is not modelled).\<close>

definition tick_room :: "room \<Rightarrow> room" where
  "tick_room r =
     (if \<not> gameOver r then
        (let r1 = r\<lparr> players := (players r)(Blue := update (players r Blue)) \<rparr>;
             r2 = r1\<lparr> players := (players r1)(White := update (players r1 White)) \<rparr>
         in bullets_forEach (length (bullets r2)) 0 r2)
      else r)"

definition tick :: "server \<Rightarrow> server" where
  "tick st = st\<lparr> rooms := map (\<lambda>(k, r). (k, tick_room r)) (rooms st) \<rparr>"

datatype event = Msg conn msg real real | Tick

fun step :: "event \<Rightarrow> server \<Rightarrow> js_error + server" where
  "step (Msg c m r1 r2) st = (case on_message c m r1 r2 st of Inl e \<Rightarrow> Inl e | Inr (st', fs) \<Rightarrow> Inr st')"
| "step Tick st = Inr (tick st)"

fun run :: "event list \<Rightarrow> server \<Rightarrow> js_error + server" where
  "run [] st = Inr st"
| "run (e # es) st = (case step e st of Inl err \<Rightarrow> Inl err | Inr st' \<Rightarrow> run es st')"

definition server0 :: server where
  "server0 = \<lparr> rooms = [], conns = (\<lambda>c. \<lparr> room = None, player = None \<rparr>) \<rparr>"

section \<open>\<^verbatim>\<open>part_000\<close>: maps, heat, the gun\<close>

record map_cfg =
  name :: string
  gravity :: real
  background :: string

text \<open>
  The table \<open>MAPS\<close>, read at a key: \<open>None\<close> is \<^verbatim>\<open>undefined\<close>. Map keys are taken to be
  strings or absent, and not names that \<^verbatim>\<open>Object.prototype\<close> defines: at such a name
  (\<^verbatim>\<open>"constructor"\<close>, say) the object literal answers with an inherited function, whose
  \<open>gravity\<close> is \<^verbatim>\<open>undefined\<close>, and the physics of the room turns to NaN, which the real
  numbers used here do not have.
\<close>

definition MAPS :: "string \<Rightarrow> map_cfg option" where
  "MAPS k =
     (if k = ''zeroG'' then Some \<lparr> name = ''Zero-G Arena'', gravity = 0, background = ''space'' \<rparr>
      else if k = ''moon'' then Some \<lparr> name = ''Moon Base'', gravity = 0.02, background = ''moon'' \<rparr>
      else if k = ''heavy'' then Some \<lparr> name = ''Heavy Factory'', gravity = 0.05, background = ''factory'' \<rparr>
      else None)"

definition HEAT_PER_SHOT :: real where "HEAT_PER_SHOT = 1"
definition MAX_HEAT :: real where "MAX_HEAT = 6"
definition COOL_RATE :: real where "COOL_RATE = 0.04"
definition OVERHEAT_COOLDOWN :: int where "OVERHEAT_COOLDOWN = 10000"
definition WIDTH_p0 :: real where "WIDTH_p0 = 420"
definition HEIGHT_p0 :: real where "HEIGHT_p0 = 800"

definition Gun_p0 :: "real \<Rightarrow> real \<Rightarrow> real \<Rightarrow> gun_p0" where
  "Gun_p0 x0 y0 rnd =
     \<lparr> x = x0, y = y0, vx = 0, vy = 0, angle = rnd * pi * 2, av = 0, radius = 20,
       heat = 0, overheated = False, overheatUntil = 0 \<rparr>"

text \<open>
  \<open>canShoot\<close> returns its answer and the gun, which it changes when the overheat has
  expired. \<open>now\<close> is \<^verbatim>\<open>Date.now()\<close>.
\<close>

definition canShoot :: "int \<Rightarrow> gun_p0 \<Rightarrow> bool \<times> gun_p0" where
  "canShoot now g =
     (if \<not> overheated g then (True, g)
      else if now \<ge> overheatUntil g
           then (True, g\<lparr> overheated := False, heat := MAX_HEAT * 0.4 \<rparr>)
           else (False, g))"

text \<open>
  \<open>shoot(bullets, owner)\<close>. The clock is read by \<open>canShoot\<close> and again when the
  overheat is set; both reads of one call are the one instant \<open>now\<close>.
\<close>

definition shoot_p0 :: "int \<Rightarrow> real \<Rightarrow> slot \<Rightarrow> gun_p0 \<Rightarrow> bullet list \<Rightarrow> gun_p0 \<times> bullet list" where
  "shoot_p0 now rnd ownr g0 bs =
     (let (ok, g) = canShoot now g0 in
      if \<not> ok then (g, bs)
      else
        (let a = angle g;
             bs' = bs @ [\<lparr> x = x g + cos a * 32, y = y g + sin a * 32,
                          vx = cos a * BULLET_SPEED, vy = sin a * BULLET_SPEED,
                          owner = ownr \<rparr>];
             g1 = g\<lparr> vx := vx g - cos a * RECOIL_FORCE \<rparr>;
             g2 = g1\<lparr> vy := vy g1 - sin a * RECOIL_FORCE \<rparr>;
             g3 = g2\<lparr> av := av g2 - (rnd - 0.5) * 0.06 \<rparr>;
             g4 = g3\<lparr> heat := heat g3 + HEAT_PER_SHOT \<rparr>;
             g5 = (if heat g4 \<ge> MAX_HEAT
                   then g4\<lparr> overheated := True, overheatUntil := now + OVERHEAT_COOLDOWN \<rparr>
                   else g4)
         in (g5, bs')))"

definition applyWall :: "real \<Rightarrow> real \<Rightarrow> gun_p0 \<Rightarrow> gun_p0" where
  "applyWall nx ny g =
     (let d = vx g * nx + vy g * ny in
      if d < 0 then
        (let g1 = g\<lparr> vx := vx g - 2 * d * nx \<rparr>;
             g2 = g1\<lparr> vy := vy g1 - 2 * d * ny \<rparr>;
             g3 = g2\<lparr> vx := vx g2 * WALL_RESTITUTION \<rparr>;
             g4 = g3\<lparr> vy := vy g3 * WALL_RESTITUTION \<rparr>
         in g4\<lparr> av := av g4 + d * ANGULAR_TRANSFER \<rparr>)
      else g)"

text \<open>
  \<open>update(g)\<close> in three stages: gravity, integration and damping; the heat decay; the
  four walls.
\<close>

definition update_integrate_p0 :: "real \<Rightarrow> gun_p0 \<Rightarrow> gun_p0" where
  "update_integrate_p0 grav g =
     (let g1 = g\<lparr> vy := vy g + grav \<rparr>;
          g2 = g1\<lparr> x := x g1 + vx g1 \<rparr>;
          g3 = g2\<lparr> y := y g2 + vy g2 \<rparr>;
          g4 = g3\<lparr> angle := angle g3 + av g3 \<rparr>;
          g5 = g4\<lparr> vx := vx g4 * LINEAR_DAMPING \<rparr>;
          g6 = g5\<lparr> vy := vy g5 * LINEAR_DAMPING \<rparr>
      in g6\<lparr> av := av g6 * ROTATION_DAMPING \<rparr>)"

definition update_cool_p0 :: "gun_p0 \<Rightarrow> gun_p0" where
  "update_cool_p0 g =
     (if \<not> overheated g \<and> heat g > 0
      then g\<lparr> heat := max 0 (heat g - COOL_RATE) \<rparr> else g)"

definition update_walls_p0 :: "gun_p0 \<Rightarrow> gun_p0" where
  "update_walls_p0 g =
     (let g1 = (if x g - radius g < 0
                then applyWall 1 0 (g\<lparr> x := radius g \<rparr>) else g);
          g2 = (if x g1 + radius g1 > WIDTH_p0
                then applyWall (-1) 0 (g1\<lparr> x := WIDTH_p0 - radius g1 \<rparr>) else g1);
          g3 = (if y g2 - radius g2 < 0
                then applyWall 0 1 (g2\<lparr> y := radius g2 \<rparr>) else g2)
      in if y g3 + radius g3 > HEIGHT_p0
         then applyWall 0 (-1) (g3\<lparr> y := HEIGHT_p0 - radius g3 \<rparr>) else g3)"

definition update_p0 :: "real \<Rightarrow> gun_p0 \<Rightarrow> gun_p0" where
  "update_p0 grav g = update_walls_p0 (update_cool_p0 (update_integrate_p0 grav g))"

text \<open>
  The operations that change a gun after its construction: a fire action (at a time,
  with a random value, an owner tag and the room's bullets) and an integration step
  (with the map's gravity).
\<close>

inductive gun_reachable :: "gun_p0 \<Rightarrow> bool" where
  new_gun: "gun_reachable (Gun_p0 x0 y0 rnd)"
| after_shoot: "gun_reachable g \<Longrightarrow> gun_reachable (fst (shoot_p0 now rnd ownr g bs))"
| after_update: "gun_reachable g \<Longrightarrow> gun_reachable (update_p0 grav g)"

text \<open>Consecutive fire actions, each at its own time and with its own random value.\<close>

fun shoots_p0 :: "(int \<times> real) list \<Rightarrow> slot \<Rightarrow> gun_p0 \<Rightarrow> bullet list \<Rightarrow> gun_p0 \<times> bullet list" where
  "shoots_p0 [] ownr g bs = (g, bs)"
| "shoots_p0 ((now, rnd) # fs) ownr g bs =
     (let (g', bs') = shoot_p0 now rnd ownr g bs in shoots_p0 fs ownr g' bs')"

section \<open>\<^verbatim>\<open>part_000\<close>: rooms, messages, the tick\<close>

record room_p0 =
  map_p0 :: "map_cfg option"
  players_p0 :: "slot \<Rightarrow> gun_p0"
  bullets_p0 :: "bullet list"
  clients_p0 :: "slot \<Rightarrow> conn option"
  started :: bool
  startAt :: int

record server_p0 =
  rooms_p0 :: "(string \<times> room_p0) list"
  conns_p0 :: "conn \<Rightarrow> ws"

text \<open>\<open>rb\<close> and \<open>rw\<close> are the random values of the two constructors.\<close>

definition createRoom_p0 :: "string option \<Rightarrow> real \<Rightarrow> real \<Rightarrow> room_p0" where
  "createRoom_p0 mapKey rb rw =
     \<lparr> map_p0 = MAPS (prop_key mapKey),
       players_p0 = (\<lambda>s. case s of Blue \<Rightarrow> Gun_p0 90 (HEIGHT_p0 - 160) rb
                                  | White \<Rightarrow> Gun_p0 (WIDTH_p0 - 90) (HEIGHT_p0 - 160) rw),
       bullets_p0 = [],
       clients_p0 = (\<lambda>s. None),
       started = False,
       startAt = 0 \<rparr>"

definition on_create_p0 :: "conn \<Rightarrow> string option \<Rightarrow> string option \<Rightarrow> real \<Rightarrow> real \<Rightarrow> server_p0 \<Rightarrow> js_error + (server_p0 \<times> frame list)" where
  "on_create_p0 c dr dm rb rw st =
     (let key = prop_key dr;
          st1 = st\<lparr> rooms_p0 := AList.update key (createRoom_p0 dm rb rw) (rooms_p0 st) \<rparr>;
          w = (conns_p0 st1 c)\<lparr> room := dr, player := Some Blue \<rparr>;
          st2 = st1\<lparr> conns_p0 := (conns_p0 st1)(c := w) \<rparr>
      in case map_of (rooms_p0 st2) key of
           None \<Rightarrow> Inl TypeError
         | Some r \<Rightarrow>
             Inr (st2\<lparr> rooms_p0 :=
                          AList.update key (r\<lparr> clients_p0 := (clients_p0 r)(Blue := Some c) \<rparr>)
                            (rooms_p0 st2) \<rparr>,
                  [Joined Blue]))"

definition on_join_p0 :: "int \<Rightarrow> conn \<Rightarrow> string option \<Rightarrow> server_p0 \<Rightarrow> js_error + (server_p0 \<times> frame list)" where
  "on_join_p0 now c dr st =
     (let key = prop_key dr in
      case map_of (rooms_p0 st) key of
        None \<Rightarrow> Inr (st, [])
      | Some r \<Rightarrow>
          if clients_p0 r White \<noteq> None then Inr (st, [])
          else
            (let w = (conns_p0 st c)\<lparr> room := dr, player := Some White \<rparr>;
                 r1 = r\<lparr> clients_p0 := (clients_p0 r)(White := Some c) \<rparr>;
                 r2 = r1\<lparr> started := False \<rparr>;
                 r3 = r2\<lparr> startAt := now + 3000 \<rparr>
             in Inr (st\<lparr> rooms_p0 := AList.update key r3 (rooms_p0 st),
                          conns_p0 := (conns_p0 st)(c := w) \<rparr>, [Joined White])))"

definition on_shoot_p0 :: "int \<Rightarrow> conn \<Rightarrow> real \<Rightarrow> server_p0 \<Rightarrow> js_error + (server_p0 \<times> frame list)" where
  "on_shoot_p0 now c rnd st =
     (let w = conns_p0 st c; key = prop_key (room w) in
      case map_of (rooms_p0 st) key of
        None \<Rightarrow> Inr (st, [])
      | Some r \<Rightarrow>
          if \<not> started r then Inr (st, [])
          else
            (case player w of
               None \<Rightarrow> Inl TypeError
             | Some p \<Rightarrow>
                 (let (g', bs') = shoot_p0 now rnd p (players_p0 r p) (bullets_p0 r);
                      r1 = r\<lparr> players_p0 := (players_p0 r)(p := g'), bullets_p0 := bs' \<rparr>
                  in Inr (st\<lparr> rooms_p0 := AList.update key r1 (rooms_p0 st) \<rparr>, []))))"

fun on_message_p0 :: "int \<Rightarrow> conn \<Rightarrow> msg \<Rightarrow> real \<Rightarrow> real \<Rightarrow> server_p0 \<Rightarrow> js_error + (server_p0 \<times> frame list)" where
  "on_message_p0 now c (Create dr dm) r1 r2 st = on_create_p0 c dr dm r1 r2 st"
| "on_message_p0 now c (Join dr) r1 r2 st = on_join_p0 now c dr st"
| "on_message_p0 now c ShootMsg r1 r2 st = on_shoot_p0 now c r1 st"
| "on_message_p0 now c m r1 r2 st = Inr (st, [])"

definition bullet_callback_p0 :: "nat \<Rightarrow> room_p0 \<Rightarrow> room_p0" where
  "bullet_callback_p0 i r =
     (let b = bullets_p0 r ! i;
          b1 = b\<lparr> x := x b + vx b \<rparr>;
          b2 = b1\<lparr> y := y b1 + vy b1 \<rparr>;
          r1 = r\<lparr> bullets_p0 := (bullets_p0 r)[i := b2] \<rparr>;
          r2 = (if owner b2 \<noteq> Blue \<and> hit b2 (players_p0 r1 Blue)
                then r1\<lparr> started := False \<rparr> else r1);
          r3 = (if owner b2 \<noteq> White \<and> hit b2 (players_p0 r2 White)
                then r2\<lparr> started := False \<rparr> else r2)
      in if x b2 < 0 \<or> x b2 > WIDTH_p0 \<or> y b2 < 0 \<or> y b2 > HEIGHT_p0
         then r3\<lparr> bullets_p0 := splice i (bullets_p0 r3) \<rparr> else r3)"

fun bullets_forEach_p0 :: "nat \<Rightarrow> nat \<Rightarrow> room_p0 \<Rightarrow> room_p0" where
  "bullets_forEach_p0 0 k r = r"
| "bullets_forEach_p0 (Suc n) k r =
     bullets_forEach_p0 n (Suc k)
       (if k < length (bullets_p0 r) then bullet_callback_p0 k r else r)"

text \<open>
  One room's share of the interval callback. \<open>r.map\<close> is \<^verbatim>\<open>undefined\<close> for a map key
  that \<open>MAPS\<close> does not have, and \<open>r.map.gravity\<close> then throws.
\<close>

definition tick_room_p0 :: "int \<Rightarrow> room_p0 \<Rightarrow> js_error + room_p0" where
  "tick_room_p0 now r =
     (let r0 = (if \<not> started r \<and> startAt r \<noteq> 0 \<and> now \<ge> startAt r
                then r\<lparr> started := True \<rparr> else r)
      in if started r0 then
           (case map_p0 r0 of
              None \<Rightarrow> Inl TypeError
            | Some m \<Rightarrow>
                (let r1 = r0\<lparr> players_p0 := (players_p0 r0)(Blue := update_p0 (gravity m) (players_p0 r0 Blue)) \<rparr>;
                     r2 = r1\<lparr> players_p0 := (players_p0 r1)(White := update_p0 (gravity m) (players_p0 r1 White)) \<rparr>
                 in Inr (bullets_forEach_p0 (length (bullets_p0 r2)) 0 r2)))
         else Inr r0)"

fun tick_rooms_p0 :: "int \<Rightarrow> (string \<times> room_p0) list \<Rightarrow> js_error + (string \<times> room_p0) list" where
  "tick_rooms_p0 now [] = Inr []"
| "tick_rooms_p0 now ((k, r) # rs) =
     (case tick_room_p0 now r of
        Inl e \<Rightarrow> Inl e
      | Inr r' \<Rightarrow> (case tick_rooms_p0 now rs of Inl e \<Rightarrow> Inl e | Inr rs' \<Rightarrow> Inr ((k, r') # rs')))"

datatype event_p0 = Msg_p0 int conn msg real real | Tick_p0 int

fun step_p0 :: "event_p0 \<Rightarrow> server_p0 \<Rightarrow> js_error + server_p0" where
  "step_p0 (Msg_p0 now c m r1 r2) st =
     (case on_message_p0 now c m r1 r2 st of Inl e \<Rightarrow> Inl e | Inr (st', fs) \<Rightarrow> Inr st')"
| "step_p0 (Tick_p0 now) st =
     (case tick_rooms_p0 now (rooms_p0 st) of Inl e \<Rightarrow> Inl e | Inr rs \<Rightarrow> Inr (st\<lparr> rooms_p0 := rs \<rparr>))"

fun run_p0 :: "event_p0 list \<Rightarrow> server_p0 \<Rightarrow> js_error + server_p0" where
  "run_p0 [] st = Inr st"
| "run_p0 (e # es) st = (case step_p0 e st of Inl err \<Rightarrow> Inl err | Inr st' \<Rightarrow> run_p0 es st')"

definition server0_p0 :: server_p0 where
  "server0_p0 = \<lparr> rooms_p0 = [], conns_p0 = (\<lambda>c. \<lparr> room = None, player = None \<rparr>) \<rparr>"

section \<open>Predicates the statements use\<close>

text \<open>
  What the heat of a gun of \<^verbatim>\<open>part_000\<close> satisfies: it is not negative, it stays below
  \<open>MAX_HEAT + HEAT_PER_SHOT\<close>, and it is at least \<open>MAX_HEAT\<close> exactly while the gun is
  overheated.
\<close>

definition heat_inv :: "gun_p0 \<Rightarrow> bool" where
  "heat_inv g \<longleftrightarrow> 0 \<le> heat g \<and> heat g < MAX_HEAT + HEAT_PER_SHOT
     \<and> (if overheated g then MAX_HEAT \<le> heat g else heat g < MAX_HEAT)"

text \<open>
  The bullet as the callback leaves it after its first two statements, the test of its
  last statement (in either file), and the two hit tests of the callback: \<open>scores b ps\<close>
  holds when \<open>b\<close> hits a body that is not its owner's, and \<open>winner_of b ps\<close> is the winner
  the callback of \<^verbatim>\<open>server.js\<close> has recorded after such a bullet (the test against white
  comes last).
\<close>

definition advanced :: "bullet \<Rightarrow> bullet" where
  "advanced b = b\<lparr> x := x b + vx b, y := y b + vy b \<rparr>"

definition in_arena :: "bullet \<Rightarrow> bool" where
  "in_arena b \<longleftrightarrow> \<not> (x b < 0 \<or> x b > WIDTH \<or> y b < 0 \<or> y b > HEIGHT)"

definition in_arena_p0 :: "bullet \<Rightarrow> bool" where
  "in_arena_p0 b \<longleftrightarrow> \<not> (x b < 0 \<or> x b > WIDTH_p0 \<or> y b < 0 \<or> y b > HEIGHT_p0)"

definition scores :: "bullet \<Rightarrow> (slot \<Rightarrow> 'a body_scheme) \<Rightarrow> bool" where
  "scores b ps \<longleftrightarrow> (owner b \<noteq> Blue \<and> hit b (ps Blue)) \<or> (owner b \<noteq> White \<and> hit b (ps White))"

definition winner_of :: "bullet \<Rightarrow> (slot \<Rightarrow> 'a body_scheme) \<Rightarrow> slot" where
  "winner_of b ps = (if owner b \<noteq> White \<and> hit b (ps White) then Blue else White)"

text \<open>
  The loop as section 4.3 of the specification words it (first hit wins): the bullets
  are visited in the same order, and the loop short-circuits once the phase has flipped
  to Ended.
\<close>

fun bullets_forEach_first_hit :: "nat \<Rightarrow> nat \<Rightarrow> room \<Rightarrow> room" where
  "bullets_forEach_first_hit 0 k r = r"
| "bullets_forEach_first_hit (Suc n) k r =
     bullets_forEach_first_hit n (Suc k)
       (if k < length (bullets r) \<and> \<not> gameOver r then bullet_callback k r else r)"

text \<open>
  A connection is bound to the Match its \<open>ws.room\<close> names when that Match exists and
  holds the connection in the slot \<open>ws.player\<close> of its \<open>clients\<close>.
\<close>

definition bound :: "server \<Rightarrow> conn \<Rightarrow> bool" where
  "bound st c =
     (case map_of (rooms st) (prop_key (room (conns st c))) of
        None \<Rightarrow> False
      | Some r \<Rightarrow> (case player (conns st c) of None \<Rightarrow> False | Some p \<Rightarrow> clients r p = Some c))"




text \<open>
  What holds of every room of \<^verbatim>\<open>part_000\<close> at a time \<open>t\<close>: a room that has projectiles or
  is started has a deadline, and the deadline has passed; a room without a white client
  has no deadline.
\<close>

definition begun_inv :: "int \<Rightarrow> room_p0 \<Rightarrow> bool" where
  "begun_inv t r \<longleftrightarrow>
     ((bullets_p0 r \<noteq> [] \<or> started r) \<longrightarrow> startAt r \<noteq> 0 \<and> startAt r \<le> t)
     \<and> (clients_p0 r White = None \<longrightarrow> startAt r = 0)"

definition rooms_inv :: "int \<Rightarrow> server_p0 \<Rightarrow> bool" where
  "rooms_inv t st \<longleftrightarrow> (\<forall>k r. map_of (rooms_p0 st) k = Some r \<longrightarrow> begun_inv t r)"

definition all_bound :: "server \<Rightarrow> bool" where
  "all_bound st \<longleftrightarrow> (\<forall>c p. player (conns st c) = Some p \<longrightarrow> bound st c)"

definition bound_p0 :: "server_p0 \<Rightarrow> conn \<Rightarrow> bool" where
  "bound_p0 st c =
     (case map_of (rooms_p0 st) (prop_key (room (conns_p0 st c))) of
        None \<Rightarrow> False
      | Some r \<Rightarrow> (case player (conns_p0 st c) of None \<Rightarrow> False | Some p \<Rightarrow> clients_p0 r p = Some c))"

section \<open>Concrete inputs\<close>

text \<open>
  A gun of \<^verbatim>\<open>server.js\<close> inside both clamps, two units from touching the left wall and
  moving into it, spinning at the negative angular limit.
\<close>

definition g_wall :: gun where
  "g_wall = \<lparr> x = 22, y = 300, vx = -5, vy = 0, angle = 0, av = -0.22, radius = 20 \<rparr>"

text \<open>
  A gun of \<^verbatim>\<open>part_000\<close>: constructed, fired five times, integrated once on the moon
  map (\<open>g_warm\<close>), then fired twice more (\<open>g_hot\<close>).
\<close>

definition g_warm :: gun_p0 where
  "g_warm =
     update_p0 0.02
       (fst (shoots_p0 [(1000, 0.5), (1100, 0.5), (1200, 0.5), (1300, 0.5), (1400, 0.5)]
               Blue (Gun_p0 90 640 0) []))"

definition g_hot :: gun_p0 where
  "g_hot = fst (shoots_p0 [(1500, 0.5), (1600, 0.5)] Blue g_warm [])"

text \<open>Six fire actions, 100 ms apart.\<close>

definition six_shots :: "(int \<times> real) list" where
  "six_shots = [(1000, 0.5), (1100, 0.5), (1200, 0.5), (1300, 0.5), (1400, 0.5), (1500, 0.5)]"

text \<open>
  A room of \<^verbatim>\<open>server.js\<close> with both guns at their spawn points and two bullets in
  flight: one bullet of white's that the next step puts on blue, then one bullet of
  blue's that the next step puts on white.
\<close>

definition r_two :: room where
  "r_two = (createRoom 0 0)\<lparr> bullets :=
     [\<lparr> x = 99, y = 520, vx = -9, vy = 0, owner = White \<rparr>,
      \<lparr> x = 321, y = 520, vx = 9, vy = 0, owner = Blue \<rparr>] \<rparr>"

text \<open>
  A room of \<^verbatim>\<open>server.js\<close> and one of \<^verbatim>\<open>part_000\<close> (started, on the moon map), each
  with two bullets of blue's far from both guns: the first leaves the arena on its next
  step, the second stays inside.
\<close>

definition r_skip :: room where
  "r_skip = (createRoom 0 0)\<lparr> bullets :=
     [\<lparr> x = 415, y = 300, vx = 9, vy = 0, owner = Blue \<rparr>,
      \<lparr> x = 100, y = 300, vx = 9, vy = 0, owner = Blue \<rparr>] \<rparr>"

definition r_skip_p0 :: room_p0 where
  "r_skip_p0 = (createRoom_p0 (Some ''moon'') 0 0)\<lparr> started := True, bullets_p0 :=
     [\<lparr> x = 415, y = 300, vx = 9, vy = 0, owner = Blue \<rparr>,
      \<lparr> x = 100, y = 300, vx = 9, vy = 0, owner = Blue \<rparr>] \<rparr>"

text \<open>
  A room of \<^verbatim>\<open>server.js\<close> whose one bullet is blue's own and lands exactly on blue's
  gun (and nowhere near white's) on its next step.
\<close>

definition r_own :: room where
  "r_own = (createRoom 0 0)\<lparr> bullets := [\<lparr> x = 81, y = 520, vx = 9, vy = 0, owner = Blue \<rparr>] \<rparr>"

definition r_own_p0 :: room_p0 where
  "r_own_p0 = (createRoom_p0 (Some ''moon'') 0 0)\<lparr> started := True, bullets_p0 :=
     [\<lparr> x = 81, y = 640, vx = 9, vy = 0, owner = Blue \<rparr>] \<rparr>"

text \<open>
  A run of \<^verbatim>\<open>part_000\<close>: connection 1 creates room \<open>R\<close>, connection 2 joins it (and is
  white); connection 3 creates \<open>R\<close> again, connection 4 joins the new Match; the tick at
  time 7000 finds the countdown of the new Match over.
\<close>

definition stale_trace :: "event_p0 list" where
  "stale_trace =
     [Msg_p0 1000 1 (Create (Some ''R'') (Some ''moon'')) 0 0,
      Msg_p0 2000 2 (Join (Some ''R'')) 0 0,
      Msg_p0 3000 3 (Create (Some ''R'') (Some ''moon'')) 0 0,
      Msg_p0 4000 4 (Join (Some ''R'')) 0 0,
      Tick_p0 7000]"

text \<open>The state that run ends in.\<close>

definition st_stale :: server_p0 where
  "st_stale =
     \<lparr> rooms_p0 =
         [(''R'',
           \<lparr> map_p0 = Some \<lparr> name = ''Moon Base'', gravity = 0.02, background = ''moon'' \<rparr>,
             players_p0 =
               (players_p0 (createRoom_p0 (Some ''moon'') 0 0))
                 (Blue := update_p0 0.02 (Gun_p0 90 (HEIGHT_p0 - 160) 0),
                  White := update_p0 0.02 (Gun_p0 (WIDTH_p0 - 90) (HEIGHT_p0 - 160) 0)),
             bullets_p0 = [],
             clients_p0 = (\<lambda>s. None)(Blue := Some 3, White := Some 4),
             started = True,
             startAt = 7000 \<rparr>)],
       conns_p0 =
         (\<lambda>c. \<lparr> room = None, player = None \<rparr>)
           (1 := \<lparr> room = Some ''R'', player = Some Blue \<rparr>,
            2 := \<lparr> room = Some ''R'', player = Some White \<rparr>,
            3 := \<lparr> room = Some ''R'', player = Some Blue \<rparr>,
            4 := \<lparr> room = Some ''R'', player = Some White \<rparr>) \<rparr>"

text \<open>
  A state of \<^verbatim>\<open>server.js\<close>: connection 1 has joined room \<open>R\<close> and is blue. It is the
  state after the one message \<open>join\<close> of connection 1.
\<close>

definition st_one :: server where
  "st_one =
     \<lparr> rooms = [(''R'', (createRoom 0 0)\<lparr> clients := (\<lambda>s. None)(Blue := Some 1) \<rparr>)],
       conns = (\<lambda>c. \<lparr> room = None, player = None \<rparr>)
                 (1 := \<lparr> room = Some ''R'', player = Some Blue \<rparr>) \<rparr>"



section \<open>Theorems\<close>

subsection \<open>The hit box\<close>

text \<open>
  C8. The hit test reports a hit exactly when the horizontal and the vertical distance
  between the centres are both strictly below 20: a projectile at offset \<open>(dx, dy)\<close>
  from a body is a hit iff \<open>|dx| < 20\<close> and \<open>|dy| < 20\<close>; offset \<open>(19, 19)\<close> is a hit,
  offset \<open>(20, 0)\<close> is not.
\<close>

theorem hit_box_exclusive_20:
  "(hit (b\<lparr> x := x g + dx, y := y g + dy \<rparr>) g \<longleftrightarrow> \<bar>dx\<bar> < 20 \<and> \<bar>dy\<bar> < 20)
   \<and> hit (b\<lparr> x := x g + 19, y := y g + 19 \<rparr>) g
   \<and> \<not> hit (b\<lparr> x := x g + 20, y := y g + 0 \<rparr>) g"
  for b :: bullet and g :: gun
  by (simp add: hit_def)

subsection \<open>The energy clamp\<close>

lemmas physics_consts =
  GRAVITY_def RECOIL_FORCE_def BULLET_SPEED_def WALL_RESTITUTION_def ANGULAR_TRANSFER_def
  ROTATION_DAMPING_def LINEAR_DAMPING_def MAX_SPEED_def MAX_ANGULAR_SPEED_def
  WIDTH_def HEIGHT_def

lemma hypot_nonneg: "0 \<le> hypot a b"
  by (simp add: hypot_def)

lemma hypot_le_iff: "0 \<le> m \<Longrightarrow> hypot a b \<le> m \<longleftrightarrow> a\<^sup>2 + b\<^sup>2 \<le> m\<^sup>2"
  unfolding hypot_def
  by (metis real_sqrt_le_iff real_sqrt_abs abs_of_nonneg)

lemma hypot_gt_iff: "0 \<le> m \<Longrightarrow> hypot a b > m \<longleftrightarrow> a\<^sup>2 + b\<^sup>2 > m\<^sup>2"
  using hypot_le_iff [of m a b] by auto

lemma hypot_scale: "0 \<le> s \<Longrightarrow> hypot (a * s) (b * s) = hypot a b * s"
proof -
  assume s: "0 \<le> s"
  have "(a * s)\<^sup>2 + (b * s)\<^sup>2 = (a\<^sup>2 + b\<^sup>2) * s\<^sup>2"
    by (simp add: power_mult_distrib distrib_right)
  then show ?thesis
    using s by (simp add: hypot_def real_sqrt_mult)
qed

lemma clamp_speed: "hypot (vx (update_clamp g)) (vy (update_clamp g)) \<le> MAX_SPEED"
proof (cases "hypot (vx g) (vy g) > MAX_SPEED")
  case True
  then have pos: "hypot (vx g) (vy g) > 0" by (simp add: MAX_SPEED_def)
  have "hypot (vx g * (MAX_SPEED / hypot (vx g) (vy g))) (vy g * (MAX_SPEED / hypot (vx g) (vy g))) = MAX_SPEED"
    using pos by (subst hypot_scale) (simp_all add: MAX_SPEED_def)
  with True show ?thesis
    by (simp add: update_clamp_def Let_def)
next
  case False
  then show ?thesis by (simp add: update_clamp_def Let_def)
qed

lemma clamp_av: "\<bar>av (update_clamp g)\<bar> \<le> MAX_ANGULAR_SPEED"
  by (auto simp add: update_clamp_def Let_def MAX_ANGULAR_SPEED_def)

lemma hypot_mono: "a\<^sup>2 + b\<^sup>2 \<le> c\<^sup>2 + d\<^sup>2 \<Longrightarrow> hypot a b \<le> hypot c d"
  by (simp add: hypot_def)

lemma restitution_sq: "(a * WALL_RESTITUTION)\<^sup>2 + (b * WALL_RESTITUTION)\<^sup>2 \<le> a\<^sup>2 + b\<^sup>2"
proof -
  have "(a * WALL_RESTITUTION)\<^sup>2 = 289 / 400 * a\<^sup>2" "(b * WALL_RESTITUTION)\<^sup>2 = 289 / 400 * b\<^sup>2"
    by (simp_all add: power_mult_distrib WALL_RESTITUTION_def power2_eq_square)
  then show ?thesis
    using zero_le_power2 [of a] zero_le_power2 [of b] by linarith
qed

lemma wall_speed:
  assumes "(nx, ny) \<in> {(1, 0), (-1, 0), (0, 1), (0, -1)}"
  shows "hypot (vx (applyWallCollision nx ny g)) (vy (applyWallCollision nx ny g)) \<le> hypot (vx g) (vy g)"
proof (cases "vx g * nx + vy g * ny < 0")
  case False
  then show ?thesis by (simp add: applyWallCollision_def Let_def)
next
  case True
  from assms have "vx (applyWallCollision nx ny g) = (- vx g) * WALL_RESTITUTION \<and> vy (applyWallCollision nx ny g) = vy g * WALL_RESTITUTION
     \<or> vx (applyWallCollision nx ny g) = vx g * WALL_RESTITUTION \<and> vy (applyWallCollision nx ny g) = (- vy g) * WALL_RESTITUTION"
    using True by (auto simp add: applyWallCollision_def Let_def)
  then show ?thesis
  proof
    assume e: "vx (applyWallCollision nx ny g) = (- vx g) * WALL_RESTITUTION \<and> vy (applyWallCollision nx ny g) = vy g * WALL_RESTITUTION"
    show ?thesis
      using restitution_sq [of "- vx g" "vy g"] by (intro hypot_mono) (simp add: e)
  next
    assume e: "vx (applyWallCollision nx ny g) = vx g * WALL_RESTITUTION \<and> vy (applyWallCollision nx ny g) = (- vy g) * WALL_RESTITUTION"
    show ?thesis
      using restitution_sq [of "vx g" "- vy g"] by (intro hypot_mono) (simp add: e)
  qed
qed

lemma wall_av: 
  "av (applyWallCollision nx ny g) \<le> av g"
  by (simp add: applyWallCollision_def Let_def ANGULAR_TRANSFER_def)

lemma wall_x [simp]: "x (applyWallCollision nx ny g) = x g"
  and wall_y [simp]: "y (applyWallCollision nx ny g) = y g"
  and wall_radius [simp]: "radius (applyWallCollision nx ny g) = radius g"
  by (simp_all add: applyWallCollision_def Let_def)

lemma walls_speed: "hypot (vx (update_walls g)) (vy (update_walls g)) \<le> hypot (vx g) (vy g)"
proof -
  define g1 where "g1 = (if x g - radius g < 0 then applyWallCollision 1 0 (g\<lparr> x := radius g \<rparr>) else g)"
  define g2 where "g2 = (if x g1 + radius g1 > WIDTH then applyWallCollision (-1) 0 (g1\<lparr> x := WIDTH - radius g1 \<rparr>) else g1)"
  define g3 where "g3 = (if y g2 - radius g2 < 0 then applyWallCollision 0 1 (g2\<lparr> y := radius g2 \<rparr>) else g2)"
  have u: "update_walls g = (if y g3 + radius g3 > HEIGHT then applyWallCollision 0 (-1) (g3\<lparr> y := HEIGHT - radius g3 \<rparr>) else g3)"
    by (simp add: update_walls_def g1_def g2_def g3_def Let_def)
  have 1: "hypot (vx g1) (vy g1) \<le> hypot (vx g) (vy g)"
    using wall_speed [of 1 0 "g\<lparr> x := radius g \<rparr>"] by (simp add: g1_def)
  have 2: "hypot (vx g2) (vy g2) \<le> hypot (vx g1) (vy g1)"
    using wall_speed [of "-1" 0 "g1\<lparr> x := WIDTH - radius g1 \<rparr>"] by (simp add: g2_def)
  have 3: "hypot (vx g3) (vy g3) \<le> hypot (vx g2) (vy g2)"
    using wall_speed [of 0 1 "g2\<lparr> y := radius g2 \<rparr>"] by (simp add: g3_def)
  have 4: "hypot (vx (update_walls g)) (vy (update_walls g)) \<le> hypot (vx g3) (vy g3)"
    using wall_speed [of 0 "-1" "g3\<lparr> y := HEIGHT - radius g3 \<rparr>"] by (simp add: u)
  from 1 2 3 4 show ?thesis by linarith
qed

lemma walls_av: "av (update_walls g) \<le> av g"
proof -
  define g1 where "g1 = (if x g - radius g < 0 then applyWallCollision 1 0 (g\<lparr> x := radius g \<rparr>) else g)"
  define g2 where "g2 = (if x g1 + radius g1 > WIDTH then applyWallCollision (-1) 0 (g1\<lparr> x := WIDTH - radius g1 \<rparr>) else g1)"
  define g3 where "g3 = (if y g2 - radius g2 < 0 then applyWallCollision 0 1 (g2\<lparr> y := radius g2 \<rparr>) else g2)"
  have u: "update_walls g = (if y g3 + radius g3 > HEIGHT then applyWallCollision 0 (-1) (g3\<lparr> y := HEIGHT - radius g3 \<rparr>) else g3)"
    by (simp add: update_walls_def g1_def g2_def g3_def Let_def)
  have 1: "av g1 \<le> av g"
    using wall_av [of 1 0 "g\<lparr> x := radius g \<rparr>"] by (simp add: g1_def)
  have 2: "av g2 \<le> av g1"
    using wall_av [of "-1" 0 "g1\<lparr> x := WIDTH - radius g1 \<rparr>"] by (simp add: g2_def)
  have 3: "av g3 \<le> av g2"
    using wall_av [of 0 1 "g2\<lparr> y := radius g2 \<rparr>"] by (simp add: g3_def)
  have 4: "av (update_walls g) \<le> av g3"
    using wall_av [of 0 "-1" "g3\<lparr> y := HEIGHT - radius g3 \<rparr>"] by (simp add: u)
  from 1 2 3 4 show ?thesis by linarith
qed

lemma g_wall_integrate: "update_integrate g_wall = \<lparr> x = 17, y = 300.02, vx = -4.99, vy = 0.01996, angle = -0.22, av = -0.21824, radius = 20 \<rparr>"
  by (simp add: update_integrate_def Let_def g_wall_def physics_consts)

lemma g_wall_clamp: "update_clamp \<lparr> x = 17, y = 300.02, vx = -4.99, vy = 0.01996, angle = -0.22, av = -0.21824, radius = 20 \<rparr>
    = \<lparr> x = 17, y = 300.02, vx = -4.99, vy = 0.01996, angle = -0.22, av = -0.21824, radius = 20 \<rparr>"
proof -
  have "\<not> hypot (-4.99) 0.01996 > MAX_SPEED"
    by (subst hypot_gt_iff) (simp_all add: MAX_SPEED_def power2_eq_square)
  then show ?thesis
    by (simp add: update_clamp_def Let_def MAX_ANGULAR_SPEED_def)
qed

lemma g_wall_walls: "update_walls \<lparr> x = 17, y = 300.02, vx = -4.99, vy = 0.01996, angle = -0.22, av = -0.21824, radius = 20 \<rparr>
    = \<lparr> x = 20, y = 300.02, vx = 4.2415, vy = 0.016966, angle = -0.22, av = -0.29309, radius = 20 \<rparr>"
  by (simp add: update_walls_def applyWallCollision_def Let_def physics_consts)

lemma g_wall_update: "update g_wall = \<lparr> x = 20, y = 300.02, vx = 4.2415, vy = 0.016966, angle = -0.22, av = -0.29309, radius = 20 \<rparr>"
  by (simp only: update_def g_wall_integrate g_wall_clamp g_wall_walls)

text \<open>
  C2, as stated, fails: \<open>g_wall\<close> is inside both clamps, and one \<open>update\<close> leaves it
  with angular velocity \<open>-0.29309\<close>, beyond \<open>MAX_ANGULAR_SPEED = 0.22\<close>. The clamp runs
  before the walls, and the wall response adds its angular impulse after it.
\<close>

theorem energy_clamp_counterexample:
  "hypot (vx g_wall) (vy g_wall) \<le> MAX_SPEED \<and> \<bar>av g_wall\<bar> \<le> MAX_ANGULAR_SPEED
   \<and> av (update g_wall) = - 0.29309
   \<and> \<not> \<bar>av (update g_wall)\<bar> \<le> MAX_ANGULAR_SPEED"
proof -
  have "hypot (vx g_wall) (vy g_wall) \<le> MAX_SPEED"
    by (subst hypot_le_iff) (simp_all add: g_wall_def MAX_SPEED_def power2_eq_square)
  moreover have "\<bar>av g_wall\<bar> \<le> MAX_ANGULAR_SPEED"
    by (simp add: g_wall_def MAX_ANGULAR_SPEED_def)
  ultimately show ?thesis
    by (simp add: g_wall_update MAX_ANGULAR_SPEED_def)
qed


text \<open>
  C2, amended. For every gun and any velocity before the clamp: right after the clamp
  stage of an integration step the linear speed is at most \<open>MAX_SPEED\<close> and the absolute
  angular velocity is at most \<open>MAX_ANGULAR_SPEED\<close>; at the end of \<open>update\<close> the linear
  speed is still at most \<open>MAX_SPEED\<close> and the angular velocity is at most
  \<open>MAX_ANGULAR_SPEED\<close> (the wall response can only lower it, and can take it below
  \<open>- MAX_ANGULAR_SPEED\<close>).
\<close>

theorem energy_clamp_post_clamp:
  "hypot (vx (update_clamp (update_integrate g))) (vy (update_clamp (update_integrate g))) \<le> MAX_SPEED
   \<and> \<bar>av (update_clamp (update_integrate g))\<bar> \<le> MAX_ANGULAR_SPEED
   \<and> hypot (vx (update g)) (vy (update g)) \<le> MAX_SPEED
   \<and> av (update g) \<le> MAX_ANGULAR_SPEED"
proof -
  let ?c = "update_clamp (update_integrate g)"
  have s: "hypot (vx ?c) (vy ?c) \<le> MAX_SPEED" by (rule clamp_speed)
  have a: "\<bar>av ?c\<bar> \<le> MAX_ANGULAR_SPEED" by (rule clamp_av)
  have "hypot (vx (update g)) (vy (update g)) \<le> hypot (vx ?c) (vy ?c)"
    unfolding update_def by (rule walls_speed)
  moreover have "av (update g) \<le> av ?c"
    unfolding update_def by (rule walls_av)
  ultimately show ?thesis using s a by linarith
qed

subsection \<open>Heat\<close>

lemmas heat_consts = HEAT_PER_SHOT_def MAX_HEAT_def COOL_RATE_def OVERHEAT_COOLDOWN_def

lemma applyWall_heat [simp]:
  "heat (applyWall nx ny g) = heat g"
  "overheated (applyWall nx ny g) = overheated g"
  "overheatUntil (applyWall nx ny g) = overheatUntil g"
  by (simp_all add: applyWall_def Let_def)

lemma update_walls_p0_heat:
  "heat (update_walls_p0 g) = heat g \<and> overheated (update_walls_p0 g) = overheated g
   \<and> overheatUntil (update_walls_p0 g) = overheatUntil g"
proof -
  define g1 where "g1 = (if x g - radius g < 0 then applyWall 1 0 (g\<lparr> x := radius g \<rparr>) else g)"
  define g2 where "g2 = (if x g1 + radius g1 > WIDTH_p0 then applyWall (-1) 0 (g1\<lparr> x := WIDTH_p0 - radius g1 \<rparr>) else g1)"
  define g3 where "g3 = (if y g2 - radius g2 < 0 then applyWall 0 1 (g2\<lparr> y := radius g2 \<rparr>) else g2)"
  have u: "update_walls_p0 g = (if y g3 + radius g3 > HEIGHT_p0 then applyWall 0 (-1) (g3\<lparr> y := HEIGHT_p0 - radius g3 \<rparr>) else g3)"
    unfolding update_walls_p0_def g1_def g2_def g3_def Let_def ..
  have 1: "heat g1 = heat g \<and> overheated g1 = overheated g \<and> overheatUntil g1 = overheatUntil g"
    by (simp add: g1_def)
  have 2: "heat g2 = heat g1 \<and> overheated g2 = overheated g1 \<and> overheatUntil g2 = overheatUntil g1"
    by (simp add: g2_def)
  have 3: "heat g3 = heat g2 \<and> overheated g3 = overheated g2 \<and> overheatUntil g3 = overheatUntil g2"
    by (simp add: g3_def)
  show ?thesis
    unfolding u using 1 2 3 by simp
qed

lemma update_p0_heat:
  "heat (update_p0 grav g) = (if \<not> overheated g \<and> heat g > 0 then max 0 (heat g - COOL_RATE) else heat g)"
  "overheated (update_p0 grav g) = overheated g"
  "overheatUntil (update_p0 grav g) = overheatUntil g"
  by (simp_all add: update_p0_def update_walls_p0_heat update_cool_p0_def update_integrate_p0_def Let_def)

lemma shoot_p0_cold:
  assumes "\<not> overheated g"
  shows "heat (fst (shoot_p0 now rnd ownr g bs)) = heat g + HEAT_PER_SHOT"
    and "overheated (fst (shoot_p0 now rnd ownr g bs)) \<longleftrightarrow> heat g + HEAT_PER_SHOT \<ge> MAX_HEAT"
    and "overheatUntil (fst (shoot_p0 now rnd ownr g bs)) =
           (if heat g + HEAT_PER_SHOT \<ge> MAX_HEAT then now + OVERHEAT_COOLDOWN else overheatUntil g)"
    and "length (snd (shoot_p0 now rnd ownr g bs)) = Suc (length bs)"
  using assms by (simp_all add: shoot_p0_def canShoot_def Let_def)

lemma shoot_p0_hot_early:
  assumes "overheated g" "now < overheatUntil g"
  shows "shoot_p0 now rnd ownr g bs = (g, bs)"
  using assms by (simp add: shoot_p0_def canShoot_def)

lemma shoot_p0_hot_late:
  assumes "overheated g" "now \<ge> overheatUntil g"
  shows "heat (fst (shoot_p0 now rnd ownr g bs)) = MAX_HEAT * 0.4 + HEAT_PER_SHOT"
    and "\<not> overheated (fst (shoot_p0 now rnd ownr g bs))"
  using assms by (simp_all add: shoot_p0_def canShoot_def Let_def heat_consts)

lemma heat_inv_new: "heat_inv (Gun_p0 x0 y0 rnd)"
  by (simp add: heat_inv_def Gun_p0_def heat_consts)

lemma heat_inv_shoot: "heat_inv g \<Longrightarrow> heat_inv (fst (shoot_p0 now rnd ownr g bs))"
proof (cases "overheated g")
  case False
  assume "heat_inv g"
  with False show ?thesis
    unfolding heat_inv_def by (simp add: shoot_p0_cold heat_consts)
next
  case True
  assume i: "heat_inv g"
  show ?thesis
  proof (cases "now < overheatUntil g")
    case True
    with \<open>overheated g\<close> i show ?thesis by (simp add: shoot_p0_hot_early)
  next
    case False
    with \<open>overheated g\<close> show ?thesis
      unfolding heat_inv_def by (simp add: shoot_p0_hot_late heat_consts)
  qed
qed

lemma heat_inv_update: "heat_inv g \<Longrightarrow> heat_inv (update_p0 grav g)"
  unfolding heat_inv_def by (auto simp add: update_p0_heat heat_consts)

lemma heat_inv_reachable: "gun_reachable g \<Longrightarrow> heat_inv g"
  by (induction rule: gun_reachable.induct) (simp_all add: heat_inv_new heat_inv_shoot heat_inv_update)

lemma shoots_p0_to_overheat:
  assumes "\<not> overheated g" "heat g = MAX_HEAT - real (length fs)" "fs \<noteq> []"
  shows "overheated (fst (shoots_p0 fs ownr g bs))
       \<and> heat (fst (shoots_p0 fs ownr g bs)) = MAX_HEAT
       \<and> overheatUntil (fst (shoots_p0 fs ownr g bs)) = fst (last fs) + OVERHEAT_COOLDOWN
       \<and> length (snd (shoots_p0 fs ownr g bs)) = length bs + length fs"
  using assms
proof (induction fs arbitrary: g bs)
  case Nil
  then show ?case by simp
next
  case (Cons f fs)
  obtain now rnd where f: "f = (now, rnd)" by (cases f)
  let ?g = "fst (shoot_p0 now rnd ownr g bs)" and ?bs = "snd (shoot_p0 now rnd ownr g bs)"
  have unf: "shoots_p0 (f # fs) ownr g bs = shoots_p0 fs ownr ?g ?bs"
    by (simp add: f split_beta)
  note c = shoot_p0_cold [OF Cons.prems(1), of now rnd ownr bs]
  show ?case
  proof (cases "fs = []")
    case True
    with Cons.prems c show ?thesis
      unfolding unf by (simp add: f heat_consts)
  next
    case False
    then have "0 < length fs" by simp
    with Cons.prems c have "\<not> overheated ?g" "heat ?g = MAX_HEAT - real (length fs)"
      by (simp_all add: heat_consts)
    from Cons.IH [OF this False, of ?bs] c(4) False show ?thesis
      unfolding unf by simp
  qed
qed

lemma shoots_p0_Cons:
  "shoots_p0 ((now, rnd) # fs) ownr g bs =
     shoots_p0 fs ownr (fst (shoot_p0 now rnd ownr g bs)) (snd (shoot_p0 now rnd ownr g bs))"
  by (simp add: split_beta)

lemma gun_reachable_shoots: "gun_reachable g \<Longrightarrow> gun_reachable (fst (shoots_p0 fs ownr g bs))"
proof (induction fs arbitrary: g bs)
  case Nil
  then show ?case by simp
next
  case (Cons f fs)
  obtain now rnd where f: "f = (now, rnd)" by (cases f)
  from Cons.prems have "gun_reachable (fst (shoot_p0 now rnd ownr g bs))"
    by (rule gun_reachable.after_shoot)
  from Cons.IH [OF this] show ?case
    unfolding f shoots_p0_Cons .
qed

lemma g_warm_reachable: "gun_reachable g_warm"
  unfolding g_warm_def
  by (intro gun_reachable.after_update gun_reachable_shoots gun_reachable.new_gun)

lemma g_warm_heat: "heat g_warm = 4.96 \<and> \<not> overheated g_warm"
  unfolding g_warm_def
  by (simp add: shoots_p0_Cons update_p0_heat shoot_p0_cold Gun_p0_def heat_consts
        del: shoots_p0.simps(2))

lemma g_hot_reachable: "gun_reachable g_hot"
  unfolding g_hot_def by (intro gun_reachable_shoots g_warm_reachable)

lemma g_hot_heat: "heat g_hot = 6.96 \<and> overheated g_hot"
  unfolding g_hot_def
  by (simp add: shoots_p0_Cons shoot_p0_cold g_warm_heat heat_consts del: shoots_p0.simps(2))

text \<open>
  C3, as stated, fails: \<open>g_hot\<close> is a gun after seven fire actions and one integration
  step, and its heat is \<open>6.96\<close>, above \<open>MAX_HEAT = 6\<close>. The heat is compared with
  \<open>MAX_HEAT\<close> only after \<open>HEAT_PER_SHOT\<close> has been added, and nothing caps it.
\<close>

theorem heat_above_max_counterexample:
  "gun_reachable g_hot \<and> heat g_hot = 6.96 \<and> \<not> (0 \<le> heat g_hot \<and> heat g_hot \<le> MAX_HEAT)"
  by (simp add: g_hot_reachable g_hot_heat MAX_HEAT_def)

text \<open>
  C3, amended. For every gun and every sequence of fire and integration operations
  the heat stays within \<open>[0, MAX_HEAT + HEAT_PER_SHOT)\<close>: no operation takes it below
  \<open>0\<close>, it is below \<open>MAX_HEAT\<close> whenever the gun is not overheated, and the shot that
  sets the overheat flag leaves it below \<open>MAX_HEAT + HEAT_PER_SHOT\<close>.
\<close>

theorem heat_bounds:
  assumes "gun_reachable g"
  shows "0 \<le> heat g \<and> heat g < MAX_HEAT + HEAT_PER_SHOT \<and> (overheated g \<or> heat g < MAX_HEAT)"
  using heat_inv_reachable [OF assms] by (auto simp add: heat_inv_def split: if_splits)

theorem heat_bounds_witness:
  "gun_reachable g_hot \<and> 0 \<le> heat g_hot \<and> heat g_hot < MAX_HEAT + HEAT_PER_SHOT
   \<and> (overheated g_hot \<or> heat g_hot < MAX_HEAT)"
  using heat_bounds [OF g_hot_reachable] by (simp add: g_hot_reachable)

text \<open>
  C4. Starting from a gun with heat \<open>0\<close> (any gun that the constructor, fire actions
  and integration steps produce), \<open>MAX_HEAT\<close> consecutive fire actions all fire
  (each adds its bullet) and the last one sets the overheat flag, with expiry at the time
  of that shot plus \<open>OVERHEAT_COOLDOWN\<close>. At every time strictly before the expiry
  \<open>canShoot\<close> returns false and leaves the gun as it is; at every time at or after it
  \<open>canShoot\<close> returns true, clears the flag and sets the heat to \<open>0.4 * MAX_HEAT\<close>.
\<close>

theorem heat_overheat_cycle:
  assumes "gun_reachable g" "heat g = 0" "real (length fs) = MAX_HEAT"
  shows "overheated (fst (shoots_p0 fs ownr g bs))
       \<and> length (snd (shoots_p0 fs ownr g bs)) = length bs + length fs
       \<and> overheatUntil (fst (shoots_p0 fs ownr g bs)) = fst (last fs) + OVERHEAT_COOLDOWN
       \<and> (\<forall>t. t < overheatUntil (fst (shoots_p0 fs ownr g bs)) \<longrightarrow>
             canShoot t (fst (shoots_p0 fs ownr g bs)) = (False, fst (shoots_p0 fs ownr g bs)))
       \<and> (\<forall>t. t \<ge> overheatUntil (fst (shoots_p0 fs ownr g bs)) \<longrightarrow>
             fst (canShoot t (fst (shoots_p0 fs ownr g bs)))
             \<and> \<not> overheated (snd (canShoot t (fst (shoots_p0 fs ownr g bs))))
             \<and> heat (snd (canShoot t (fst (shoots_p0 fs ownr g bs)))) = 0.4 * MAX_HEAT)"
proof -
  from heat_inv_reachable [OF assms(1)] assms(2) have cold: "\<not> overheated g"
    by (auto simp add: heat_inv_def heat_consts split: if_splits)
  from assms(3) have ne: "fs \<noteq> []" by (auto simp add: heat_consts)
  from assms(2,3) have h: "heat g = MAX_HEAT - real (length fs)" by simp
  note r = shoots_p0_to_overheat [OF cold h ne, of ownr bs]
  then show ?thesis
    by (simp add: canShoot_def)
qed


theorem heat_overheat_cycle_witness:
  "gun_reachable (Gun_p0 90 640 0) \<and> heat (Gun_p0 90 640 0) = 0 \<and> real (length six_shots) = MAX_HEAT
   \<and> overheated (fst (shoots_p0 six_shots Blue (Gun_p0 90 640 0) []))
   \<and> length (snd (shoots_p0 six_shots Blue (Gun_p0 90 640 0) [])) = 6
   \<and> overheatUntil (fst (shoots_p0 six_shots Blue (Gun_p0 90 640 0) [])) = 11500
   \<and> canShoot 11499 (fst (shoots_p0 six_shots Blue (Gun_p0 90 640 0) []))
       = (False, fst (shoots_p0 six_shots Blue (Gun_p0 90 640 0) []))
   \<and> fst (canShoot 11500 (fst (shoots_p0 six_shots Blue (Gun_p0 90 640 0) [])))
   \<and> \<not> overheated (snd (canShoot 11500 (fst (shoots_p0 six_shots Blue (Gun_p0 90 640 0) []))))
   \<and> heat (snd (canShoot 11500 (fst (shoots_p0 six_shots Blue (Gun_p0 90 640 0) [])))) = 2.4"
proof -
  have r: "gun_reachable (Gun_p0 90 640 0)" by (rule gun_reachable.new_gun)
  have h: "heat (Gun_p0 90 640 0) = 0" by (simp add: Gun_p0_def)
  have n: "real (length six_shots) = MAX_HEAT" by (simp add: six_shots_def MAX_HEAT_def)
  have l: "fst (last six_shots) = 1500" "length six_shots = 6" by (simp_all add: six_shots_def)
  from heat_overheat_cycle [OF r h n, of Blue "[]"] show ?thesis
    by (simp add: r h n l heat_consts)
qed

subsection \<open>The bullet loop of \<^verbatim>\<open>server.js\<close>\<close>

lemma bullet_callback_eq:
  "bullet_callback i r =
     (let b = advanced (bullets r ! i);
          r1 = r\<lparr> bullets := (bullets r)[i := b],
                   gameOver := gameOver r \<or> scores b (players r),
                   winner := (if scores b (players r) then Some (winner_of b (players r)) else winner r) \<rparr>
      in if in_arena b then r1 else r1\<lparr> bullets := splice i (bullets r1) \<rparr>)"
  by (simp add: bullet_callback_def advanced_def scores_def winner_of_def in_arena_def Let_def)


lemma callback_in_arena:
  assumes "in_arena (advanced (bullets r ! i))"
  shows "bullet_callback i r =
     r\<lparr> bullets := (bullets r)[i := advanced (bullets r ! i)],
        gameOver := gameOver r \<or> scores (advanced (bullets r ! i)) (players r),
        winner := (if scores (advanced (bullets r ! i)) (players r)
                   then Some (winner_of (advanced (bullets r ! i)) (players r)) else winner r) \<rparr>"
  using assms by (simp add: bullet_callback_eq Let_def)

lemma forEach_in_arena_shape:
  assumes "k + n = length (bullets r)"
    and "\<forall>i. k \<le> i \<and> i < length (bullets r) \<longrightarrow> in_arena (advanced (bullets r ! i))"
  shows "players (bullets_forEach n k r) = players r
       \<and> bullets (bullets_forEach n k r) = take k (bullets r) @ map advanced (drop k (bullets r))"
  using assms
proof (induction n arbitrary: k r)
  case 0
  then show ?case by simp
next
  case (Suc n)
  let ?r1 = "bullet_callback k r"
  from Suc.prems have k: "k < length (bullets r)" by simp
  with Suc.prems have ia: "in_arena (advanced (bullets r ! k))" by simp
  have b1: "bullets ?r1 = (bullets r)[k := advanced (bullets r ! k)]" and p1: "players ?r1 = players r"
    by (simp_all add: callback_in_arena [OF ia])
  have len: "Suc k + n = length (bullets ?r1)" using Suc.prems(1) by (simp add: b1)
  have arena: "\<forall>i. Suc k \<le> i \<and> i < length (bullets ?r1) \<longrightarrow> in_arena (advanced (bullets ?r1 ! i))"
    using Suc.prems(2) by (simp add: b1)
  from Suc.IH [OF len arena] k show ?case
    by (simp add: b1 p1 take_Suc_conv_app_nth flip: Cons_nth_drop_Suc)
qed

lemma forEach_in_arena_no_score:
  assumes "k + n = length (bullets r)"
    and "\<forall>i. k \<le> i \<and> i < length (bullets r) \<longrightarrow> in_arena (advanced (bullets r ! i))"
    and "\<forall>i. k \<le> i \<and> i < length (bullets r) \<longrightarrow> \<not> scores (advanced (bullets r ! i)) (players r)"
  shows "gameOver (bullets_forEach n k r) = gameOver r \<and> winner (bullets_forEach n k r) = winner r"
  using assms
proof (induction n arbitrary: k r)
  case 0
  then show ?case by simp
next
  case (Suc n)
  let ?r1 = "bullet_callback k r"
  from Suc.prems have k: "k < length (bullets r)" by simp
  with Suc.prems have ia: "in_arena (advanced (bullets r ! k))"
    and ns: "\<not> scores (advanced (bullets r ! k)) (players r)" by simp_all
  have b1: "bullets ?r1 = (bullets r)[k := advanced (bullets r ! k)]" and p1: "players ?r1 = players r"
    and g1: "gameOver ?r1 = gameOver r" and w1: "winner ?r1 = winner r"
    using ns by (simp_all add: callback_in_arena [OF ia])
  have len: "Suc k + n = length (bullets ?r1)" using Suc.prems(1) by (simp add: b1)
  have arena: "\<forall>i. Suc k \<le> i \<and> i < length (bullets ?r1) \<longrightarrow> in_arena (advanced (bullets ?r1 ! i))"
    using Suc.prems(2) by (simp add: b1)
  have quiet: "\<forall>i. Suc k \<le> i \<and> i < length (bullets ?r1) \<longrightarrow> \<not> scores (advanced (bullets ?r1 ! i)) (players ?r1)"
    using Suc.prems(3) by (simp add: b1 p1)
  from Suc.IH [OF len arena quiet] k show ?case
    by (simp add: g1 w1)
qed

lemma forEach_in_arena_last_score:
  assumes "k + n = length (bullets r)"
    and "\<forall>i. k \<le> i \<and> i < length (bullets r) \<longrightarrow> in_arena (advanced (bullets r ! i))"
    and "k \<le> j" "j < length (bullets r)"
    and "scores (advanced (bullets r ! j)) (players r)"
    and "\<forall>i. j < i \<and> i < length (bullets r) \<longrightarrow> \<not> scores (advanced (bullets r ! i)) (players r)"
  shows "gameOver (bullets_forEach n k r)
       \<and> winner (bullets_forEach n k r) = Some (winner_of (advanced (bullets r ! j)) (players r))"
  using assms
proof (induction n arbitrary: k r)
  case 0
  then show ?case by simp
next
  case (Suc n)
  let ?r1 = "bullet_callback k r"
  from Suc.prems have k: "k < length (bullets r)" by simp
  with Suc.prems have ia: "in_arena (advanced (bullets r ! k))" by simp
  have b1: "bullets ?r1 = (bullets r)[k := advanced (bullets r ! k)]" and p1: "players ?r1 = players r"
    by (simp_all add: callback_in_arena [OF ia])
  have len: "Suc k + n = length (bullets ?r1)" using Suc.prems(1) by (simp add: b1)
  have arena: "\<forall>i. Suc k \<le> i \<and> i < length (bullets ?r1) \<longrightarrow> in_arena (advanced (bullets ?r1 ! i))"
    using Suc.prems(2) by (simp add: b1)
  have step: "bullets_forEach (Suc n) k r = bullets_forEach n (Suc k) ?r1"
    using k by simp
  show ?case
  proof (cases "k = j")
    case True
    have g1: "gameOver ?r1" and w1: "winner ?r1 = Some (winner_of (advanced (bullets r ! j)) (players r))"
      using Suc.prems(5) by (simp_all add: callback_in_arena [OF ia] flip: True)
    have quiet: "\<forall>i. Suc k \<le> i \<and> i < length (bullets ?r1) \<longrightarrow> \<not> scores (advanced (bullets ?r1 ! i)) (players ?r1)"
      using Suc.prems(6) by (simp add: b1 p1 flip: True)
    from forEach_in_arena_no_score [OF len arena quiet] show ?thesis
      unfolding step by (simp add: g1 w1)
  next
    case False
    with Suc.prems(3) have kj: "Suc k \<le> j" by simp
    have j1: "j < length (bullets ?r1)" using Suc.prems(4) by (simp add: b1)
    have sc: "scores (advanced (bullets ?r1 ! j)) (players ?r1)"
      using Suc.prems(5) kj by (simp add: b1 p1)
    have quiet: "\<forall>i. j < i \<and> i < length (bullets ?r1) \<longrightarrow> \<not> scores (advanced (bullets ?r1 ! i)) (players ?r1)"
      using Suc.prems(6) kj by (simp add: b1 p1)
    from Suc.IH [OF len arena kj j1 sc quiet] kj show ?thesis
      unfolding step by (simp add: b1 p1)
  qed
qed

lemma winner_of_owner:
  "owner b = s \<Longrightarrow> scores b ps \<Longrightarrow> winner_of b ps = s"
  by (cases s) (auto simp add: scores_def winner_of_def)

lemma owner_advanced [simp]: "owner (advanced b) = owner b"
  by (simp add: advanced_def)

lemmas room_eval = createRoom_def Gun_def hit_def advanced_def in_arena_def scores_def winner_of_def
  splice_def physics_consts Let_def

text \<open>
  C1, as stated, fails. In \<open>r_two\<close> both bullets qualify in the same tick. A loop that
  stops at the first detected hit records white as the winner and leaves the second
  bullet where it was; the loop of the source goes on, advances the second bullet, takes
  its hit as well and overwrites the winner with blue.
\<close>

theorem first_hit_wins_counterexample:
  "scores (advanced (bullets r_two ! 0)) (players r_two)
   \<and> scores (advanced (bullets r_two ! 1)) (players r_two)
   \<and> winner (bullets_forEach_first_hit (length (bullets r_two)) 0 r_two) = Some White
   \<and> winner (bullets_forEach (length (bullets r_two)) 0 r_two) = Some Blue
   \<and> bullets (bullets_forEach_first_hit (length (bullets r_two)) 0 r_two) ! 1 = bullets r_two ! 1
   \<and> bullets (bullets_forEach (length (bullets r_two)) 0 r_two) ! 1 = advanced (bullets r_two ! 1)"
  by (simp add: r_two_def bullet_callback_eq room_eval)

text \<open>
  C1, amended. In a per-tick collision evaluation in which no projectile leaves the
  arena, when projectiles satisfy the hit test against a non-owning body the Match is
  Ended after the loop with a single winner fixed by the array order of the projectiles:
  the loop does not stop at the first detected hit, it visits every projectile in index
  order, advances each one, and the winner it leaves is the owner of the last
  projectile in that order that qualifies.
\<close>

theorem last_hit_wins:
  assumes "list_all (\<lambda>b. in_arena (advanced b)) (bullets r)"
    and "j < length (bullets r)"
    and "scores (advanced (bullets r ! j)) (players r)"
    and "\<forall>i. j < i \<and> i < length (bullets r) \<longrightarrow> \<not> scores (advanced (bullets r ! i)) (players r)"
  shows "gameOver (bullets_forEach (length (bullets r)) 0 r)
       \<and> winner (bullets_forEach (length (bullets r)) 0 r) = Some (owner (bullets r ! j))
       \<and> bullets (bullets_forEach (length (bullets r)) 0 r) = map advanced (bullets r)"
proof -
  have len: "0 + length (bullets r) = length (bullets r)" by simp
  have arena: "\<forall>i. 0 \<le> i \<and> i < length (bullets r) \<longrightarrow> in_arena (advanced (bullets r ! i))"
    using assms(1) by (simp add: list_all_length)
  have own: "winner_of (advanced (bullets r ! j)) (players r) = owner (bullets r ! j)"
    using winner_of_owner [OF _ assms(3)] by simp
  from forEach_in_arena_last_score [OF len arena _ assms(2,3,4)]
    forEach_in_arena_shape [OF len arena] own
  show ?thesis by simp
qed

theorem last_hit_wins_witness:
  "list_all (\<lambda>b. in_arena (advanced b)) (bullets r_two)
   \<and> (1::nat) < length (bullets r_two)
   \<and> scores (advanced (bullets r_two ! 0)) (players r_two)
   \<and> scores (advanced (bullets r_two ! 1)) (players r_two)
   \<and> owner (bullets r_two ! 0) = White
   \<and> owner (bullets r_two ! 1) = Blue
   \<and> gameOver (bullets_forEach (length (bullets r_two)) 0 r_two)
   \<and> winner (bullets_forEach (length (bullets r_two)) 0 r_two) = Some Blue
   \<and> bullets (bullets_forEach (length (bullets r_two)) 0 r_two) = map advanced (bullets r_two)"
proof -
  have a: "list_all (\<lambda>b. in_arena (advanced b)) (bullets r_two)"
    by (simp add: r_two_def room_eval)
  have j: "(1::nat) < length (bullets r_two)" by (simp add: r_two_def)
  have sc: "scores (advanced (bullets r_two ! 1)) (players r_two)"
    "scores (advanced (bullets r_two ! 0)) (players r_two)"
    by (simp_all add: r_two_def room_eval)
  have q: "\<forall>i. 1 < i \<and> i < length (bullets r_two) \<longrightarrow> \<not> scores (advanced (bullets r_two ! i)) (players r_two)"
    by (auto simp add: r_two_def)
  have w: "owner (bullets r_two ! 1) = Blue" "owner (bullets r_two ! 0) = White"
    by (simp_all add: r_two_def)
  from last_hit_wins [OF a j sc(1) q] a j sc w show ?thesis by simp
qed

lemma tick_room_active:
  "\<not> gameOver r \<Longrightarrow>
   tick_room r = bullets_forEach (length (bullets r)) 0
      (r\<lparr> players := (players r)(Blue := update (players r Blue), White := update (players r White)) \<rparr>)"
  by (simp add: tick_room_def Let_def)

lemmas p0_consts = WIDTH_p0_def HEIGHT_p0_def

text \<open>
  C9 says that in one tick every projectile that leaves the arena is removed and every
  other projectile is retained and advanced exactly once. The code at the rooms \<open>r_skip\<close>
  and \<open>r_skip_p0\<close>: the first bullet steps to \<open>x = 424\<close> and is spliced out at index \<open>0\<close>,
  the second bullet moves down to index \<open>0\<close>, the loop goes on to index \<open>1\<close>, which the
  array no longer has, and the tick ends with the second bullet retained but not
  advanced (still at \<open>x = 100\<close>, not at \<open>109\<close>).
\<close>

theorem splice_skips_next_bullet:
  "bullets (tick_room r_skip) = [\<lparr> x = 100, y = 300, vx = 9, vy = 0, owner = Blue \<rparr>]
   \<and> bullets_p0 (bullets_forEach_p0 (length (bullets_p0 r_skip_p0)) 0 r_skip_p0)
       = [\<lparr> x = 100, y = 300, vx = 9, vy = 0, owner = Blue \<rparr>]"
proof -
  have "\<not> gameOver r_skip" by (simp add: r_skip_def createRoom_def)
  then have "bullets (tick_room r_skip) = [\<lparr> x = 100, y = 300, vx = 9, vy = 0, owner = Blue \<rparr>]"
    by (simp add: tick_room_active) (simp add: r_skip_def bullet_callback_eq room_eval)
  moreover have "bullets_p0 (bullets_forEach_p0 (length (bullets_p0 r_skip_p0)) 0 r_skip_p0)
       = [\<lparr> x = 100, y = 300, vx = 9, vy = 0, owner = Blue \<rparr>]"
    by (simp add: r_skip_p0_def bullet_callback_p0_def createRoom_p0_def Gun_p0_def hit_def splice_def p0_consts Let_def)
  ultimately show ?thesis by simp
qed


subsection \<open>Owner exclusion\<close>

lemma scores_own_body:
  "owner b = s \<Longrightarrow> scores b (ps(s := g)) = scores b ps"
  by (cases s) (auto simp add: scores_def)

lemma winner_of_own_body:
  "owner b = s \<Longrightarrow> winner_of b (ps(s := g)) = winner_of b ps"
  by (cases s) (auto simp add: winner_of_def)

lemma callback_own_body:
  assumes "owner (bullets r ! i) = s"
  shows "bullet_callback i (r\<lparr> players := (players r)(s := g) \<rparr>)
       = (bullet_callback i r)\<lparr> players := (players r)(s := g) \<rparr>"
  using assms by (simp add: bullet_callback_eq Let_def scores_own_body winner_of_own_body)

lemma callback_players [simp]: "players (bullet_callback i r) = players r"
  by (simp add: bullet_callback_eq Let_def)

lemma callback_owners:
  assumes "list_all (\<lambda>b. owner b = s) (bullets r)" "i < length (bullets r)"
  shows "list_all (\<lambda>b. owner b = s) (bullets (bullet_callback i r))"
proof -
  have a: "owner (advanced (bullets r ! i)) = s"
    using assms by (simp add: list_all_length)
  have u: "list_all (\<lambda>b. owner b = s) ((bullets r)[i := advanced (bullets r ! i)])"
    using assms(1) a by (auto simp add: list_all_iff dest!: subsetD [OF set_update_subset_insert])
  have "list_all (\<lambda>b. owner b = s) (splice i ((bullets r)[i := advanced (bullets r ! i)]))"
    using assms(1) by (auto simp add: list_all_iff splice_def dest: in_set_takeD in_set_dropD)
  with u show ?thesis
    by (simp add: bullet_callback_eq Let_def)
qed

lemma forEach_own_body:
  assumes "list_all (\<lambda>b. owner b = s) (bullets r)"
  shows "bullets_forEach n k (r\<lparr> players := (players r)(s := g) \<rparr>)
       = (bullets_forEach n k r)\<lparr> players := (players r)(s := g) \<rparr>"
  using assms
proof (induction n arbitrary: k r)
  case 0
  then show ?case by simp
next
  case (Suc n)
  show ?case
  proof (cases "k < length (bullets r)")
    case False
    have "bullets_forEach (Suc n) k (r\<lparr> players := (players r)(s := g) \<rparr>)
        = bullets_forEach n (Suc k) (r\<lparr> players := (players r)(s := g) \<rparr>)"
      using False by simp
    also have "\<dots> = (bullets_forEach n (Suc k) r)\<lparr> players := (players r)(s := g) \<rparr>"
      by (rule Suc.IH [OF Suc.prems])
    also have "\<dots> = (bullets_forEach (Suc n) k r)\<lparr> players := (players r)(s := g) \<rparr>"
      using False by simp
    finally show ?thesis .
  next
    case True
    then have o: "owner (bullets r ! k) = s" using Suc.prems by (simp add: list_all_length)
    let ?c = "bullet_callback k r"
    have "bullets_forEach (Suc n) k (r\<lparr> players := (players r)(s := g) \<rparr>)
        = bullets_forEach n (Suc k) (bullet_callback k (r\<lparr> players := (players r)(s := g) \<rparr>))"
      using True by simp
    also have "\<dots> = bullets_forEach n (Suc k) (?c\<lparr> players := (players ?c)(s := g) \<rparr>)"
      by (simp only: callback_own_body [OF o] callback_players)
    also have "\<dots> = (bullets_forEach n (Suc k) ?c)\<lparr> players := (players ?c)(s := g) \<rparr>"
      by (rule Suc.IH [OF callback_owners [OF Suc.prems True]])
    also have "\<dots> = (bullets_forEach (Suc n) k r)\<lparr> players := (players r)(s := g) \<rparr>"
      using True by (simp only: callback_players bullets_forEach.simps if_True)
    finally show ?thesis .
  qed
qed

lemma forEach_own_winner:
  assumes "list_all (\<lambda>b. owner b = s) (bullets r)" "winner r \<noteq> Some (opponent s)"
  shows "winner (bullets_forEach n k r) \<noteq> Some (opponent s)"
  using assms
proof (induction n arbitrary: k r)
  case 0
  then show ?case by simp
next
  case (Suc n)
  show ?case
  proof (cases "k < length (bullets r)")
    case False
    with Suc.IH [OF Suc.prems, of "Suc k"] show ?thesis by simp
  next
    case True
    then have o: "owner (advanced (bullets r ! k)) = s" using Suc.prems by (simp add: list_all_length)
    have "winner (bullet_callback k r) \<noteq> Some (opponent s)"
      using Suc.prems(2) winner_of_owner [OF o, of "players r"]
      by (cases s) (auto simp add: bullet_callback_eq Let_def)
    from Suc.IH [OF callback_owners [OF Suc.prems(1) True] this, of "Suc k"] True show ?thesis
      by simp
  qed
qed


lemma bullet_callback_p0_eq:
  "bullet_callback_p0 i r =
     (let b = advanced (bullets_p0 r ! i);
          r1 = r\<lparr> bullets_p0 := (bullets_p0 r)[i := b],
                   started := started r \<and> \<not> scores b (players_p0 r) \<rparr>
      in if in_arena_p0 b then r1 else r1\<lparr> bullets_p0 := splice i (bullets_p0 r1) \<rparr>)"
  by (simp add: bullet_callback_p0_def advanced_def scores_def in_arena_p0_def Let_def)

lemma callback_p0_own_body:
  assumes "owner (bullets_p0 r ! i) = s"
  shows "bullet_callback_p0 i (r\<lparr> players_p0 := (players_p0 r)(s := g) \<rparr>)
       = (bullet_callback_p0 i r)\<lparr> players_p0 := (players_p0 r)(s := g) \<rparr>"
  using assms by (simp add: bullet_callback_p0_eq Let_def scores_own_body)

lemma callback_p0_players [simp]: "players_p0 (bullet_callback_p0 i r) = players_p0 r"
  by (simp add: bullet_callback_p0_eq Let_def)

lemma callback_p0_owners:
  assumes "list_all (\<lambda>b. owner b = s) (bullets_p0 r)" "i < length (bullets_p0 r)"
  shows "list_all (\<lambda>b. owner b = s) (bullets_p0 (bullet_callback_p0 i r))"
proof -
  have a: "owner (advanced (bullets_p0 r ! i)) = s"
    using assms by (simp add: list_all_length)
  have u: "list_all (\<lambda>b. owner b = s) ((bullets_p0 r)[i := advanced (bullets_p0 r ! i)])"
    using assms(1) a by (auto simp add: list_all_iff dest!: subsetD [OF set_update_subset_insert])
  have "list_all (\<lambda>b. owner b = s) (splice i ((bullets_p0 r)[i := advanced (bullets_p0 r ! i)]))"
    using assms(1) by (auto simp add: list_all_iff splice_def dest: in_set_takeD in_set_dropD)
  with u show ?thesis
    by (simp add: bullet_callback_p0_eq Let_def)
qed

lemma forEach_p0_own_body:
  assumes "list_all (\<lambda>b. owner b = s) (bullets_p0 r)"
  shows "bullets_forEach_p0 n k (r\<lparr> players_p0 := (players_p0 r)(s := g) \<rparr>)
       = (bullets_forEach_p0 n k r)\<lparr> players_p0 := (players_p0 r)(s := g) \<rparr>"
  using assms
proof (induction n arbitrary: k r)
  case 0
  then show ?case by simp
next
  case (Suc n)
  show ?case
  proof (cases "k < length (bullets_p0 r)")
    case False
    have "bullets_forEach_p0 (Suc n) k (r\<lparr> players_p0 := (players_p0 r)(s := g) \<rparr>)
        = bullets_forEach_p0 n (Suc k) (r\<lparr> players_p0 := (players_p0 r)(s := g) \<rparr>)"
      using False by simp
    also have "\<dots> = (bullets_forEach_p0 n (Suc k) r)\<lparr> players_p0 := (players_p0 r)(s := g) \<rparr>"
      by (rule Suc.IH [OF Suc.prems])
    also have "\<dots> = (bullets_forEach_p0 (Suc n) k r)\<lparr> players_p0 := (players_p0 r)(s := g) \<rparr>"
      using False by simp
    finally show ?thesis .
  next
    case True
    then have o: "owner (bullets_p0 r ! k) = s" using Suc.prems by (simp add: list_all_length)
    let ?c = "bullet_callback_p0 k r"
    have "bullets_forEach_p0 (Suc n) k (r\<lparr> players_p0 := (players_p0 r)(s := g) \<rparr>)
        = bullets_forEach_p0 n (Suc k) (bullet_callback_p0 k (r\<lparr> players_p0 := (players_p0 r)(s := g) \<rparr>))"
      using True by simp
    also have "\<dots> = bullets_forEach_p0 n (Suc k) (?c\<lparr> players_p0 := (players_p0 ?c)(s := g) \<rparr>)"
      by (simp only: callback_p0_own_body [OF o] callback_p0_players)
    also have "\<dots> = (bullets_forEach_p0 n (Suc k) ?c)\<lparr> players_p0 := (players_p0 ?c)(s := g) \<rparr>"
      by (rule Suc.IH [OF callback_p0_owners [OF Suc.prems True]])
    also have "\<dots> = (bullets_forEach_p0 (Suc n) k r)\<lparr> players_p0 := (players_p0 r)(s := g) \<rparr>"
      using True by (simp only: callback_p0_players bullets_forEach_p0.simps if_True)
    finally show ?thesis .
  qed
qed

text \<open>
  So much for the whole loop: when every projectile of a room carries the owner tag
  \<open>s\<close>, the outcome of the loop is the same whatever body the slot \<open>s\<close> holds, and in
  \<^verbatim>\<open>server.js\<close> the loop never makes the opponent of \<open>s\<close> the winner. Now one projectile.
\<close>

lemma scores_opponent:
  "owner b = s \<Longrightarrow> scores b ps \<longleftrightarrow> hit b (ps (opponent s))"
  by (cases s) (auto simp add: scores_def)

lemma callback_registers:
  assumes "owner (bullets r ! i) = s"
  shows "gameOver (bullet_callback i r) \<longleftrightarrow>
           gameOver r \<or> hit (advanced (bullets r ! i)) (players r (opponent s))"
    and "winner (bullet_callback i r) =
           (if hit (advanced (bullets r ! i)) (players r (opponent s)) then Some s else winner r)"
proof -
  have o: "owner (advanced (bullets r ! i)) = s" using assms by simp
  show "gameOver (bullet_callback i r) \<longleftrightarrow>
           gameOver r \<or> hit (advanced (bullets r ! i)) (players r (opponent s))"
    by (simp add: bullet_callback_eq Let_def scores_opponent [OF o])
  show "winner (bullet_callback i r) =
           (if hit (advanced (bullets r ! i)) (players r (opponent s)) then Some s else winner r)"
    using winner_of_owner [OF o, of "players r"]
    by (simp add: bullet_callback_eq Let_def scores_opponent [OF o])
qed

lemma callback_p0_registers:
  assumes "owner (bullets_p0 r ! i) = s"
  shows "started (bullet_callback_p0 i r) \<longleftrightarrow>
           started r \<and> \<not> hit (advanced (bullets_p0 r ! i)) (players_p0 r (opponent s))"
proof -
  have o: "owner (advanced (bullets_p0 r ! i)) = s" using assms by simp
  show ?thesis
    by (simp add: bullet_callback_p0_eq Let_def scores_opponent [OF o])
qed

text \<open>
  C7. A projectile never registers a hit against the body of its owner's slot, wherever
  the projectile and that body are. For every projectile the loop visits, with owner
  tag \<open>s\<close>: the outcome of its callback (either file) is the same whatever body the slot
  \<open>s\<close> holds; the callback flips the phase exactly when the advanced projectile is in
  the hit box of the opponent's body; and the winner \<^verbatim>\<open>server.js\<close> then records is \<open>s\<close>.
\<close>

theorem owner_exclusion:
  assumes "i < length (bullets r)" "owner (bullets r ! i) = s"
    and "l < length (bullets_p0 r0)" "owner (bullets_p0 r0 ! l) = s"
  shows "bullet_callback i (r\<lparr> players := (players r)(s := g) \<rparr>)
           = (bullet_callback i r)\<lparr> players := (players r)(s := g) \<rparr>
       \<and> (gameOver (bullet_callback i r) \<longleftrightarrow>
            gameOver r \<or> hit (advanced (bullets r ! i)) (players r (opponent s)))
       \<and> winner (bullet_callback i r) =
            (if hit (advanced (bullets r ! i)) (players r (opponent s)) then Some s else winner r)
       \<and> bullet_callback_p0 l (r0\<lparr> players_p0 := (players_p0 r0)(s := h) \<rparr>)
           = (bullet_callback_p0 l r0)\<lparr> players_p0 := (players_p0 r0)(s := h) \<rparr>
       \<and> (started (bullet_callback_p0 l r0) \<longleftrightarrow>
            started r0 \<and> \<not> hit (advanced (bullets_p0 r0 ! l)) (players_p0 r0 (opponent s)))"
  using callback_own_body [OF assms(2)] callback_registers [OF assms(2)]
    callback_p0_own_body [OF assms(4)] callback_p0_registers [OF assms(4)]
  by simp

theorem owner_exclusion_witness:
  "(0::nat) < length (bullets r_own) \<and> owner (bullets r_own ! 0) = Blue
   \<and> (0::nat) < length (bullets_p0 r_own_p0) \<and> owner (bullets_p0 r_own_p0 ! 0) = Blue
   \<and> hit (advanced (bullets r_own ! 0)) (players r_own Blue)
   \<and> hit (advanced (bullets_p0 r_own_p0 ! 0)) (players_p0 r_own_p0 Blue)
   \<and> \<not> gameOver (bullet_callback 0 r_own)
   \<and> winner (bullet_callback 0 r_own) = None
   \<and> started (bullet_callback_p0 0 r_own_p0)
   \<and> bullet_callback 0 (r_own\<lparr> players := (players r_own)(Blue := g_wall) \<rparr>)
        = (bullet_callback 0 r_own)\<lparr> players := (players r_own)(Blue := g_wall) \<rparr>
   \<and> bullet_callback_p0 0 (r_own_p0\<lparr> players_p0 := (players_p0 r_own_p0)(Blue := g_hot) \<rparr>)
        = (bullet_callback_p0 0 r_own_p0)\<lparr> players_p0 := (players_p0 r_own_p0)(Blue := g_hot) \<rparr>"
proof -
  have a: "(0::nat) < length (bullets r_own)" "owner (bullets r_own ! 0) = Blue"
    by (simp_all add: r_own_def)
  have b: "(0::nat) < length (bullets_p0 r_own_p0)" "owner (bullets_p0 r_own_p0 ! 0) = Blue"
    by (simp_all add: r_own_p0_def)
  have h: "hit (advanced (bullets r_own ! 0)) (players r_own Blue)"
    "hit (advanced (bullets_p0 r_own_p0 ! 0)) (players_p0 r_own_p0 Blue)"
    by (simp_all add: r_own_def r_own_p0_def createRoom_p0_def Gun_p0_def p0_consts room_eval)
  have far: "\<not> hit (advanced (bullets r_own ! 0)) (players r_own (opponent Blue))"
    "\<not> hit (advanced (bullets_p0 r_own_p0 ! 0)) (players_p0 r_own_p0 (opponent Blue))"
    by (simp_all add: r_own_def r_own_p0_def createRoom_p0_def Gun_p0_def p0_consts room_eval)
  have st: "\<not> gameOver r_own" "winner r_own = None" "started r_own_p0"
    by (simp_all add: r_own_def r_own_p0_def createRoom_def)
  from owner_exclusion [OF a b, of g_wall g_hot] a b h far st show ?thesis
    by simp
qed


subsection \<open>The message handlers\<close>

lemmas handlers_p0 = on_create_p0_def on_join_p0_def prop_key_def server0_p0_def

lemma stale_run: "run_p0 stale_trace server0_p0 = Inr st_stale"
  by (simp add: stale_trace_def st_stale_def handlers_p0 Let_def tick_room_p0_def createRoom_p0_def MAPS_def)

lemma one_run: "run [Msg 1 (Join (Some ''R'')) 0 0] server0 = Inr st_one"
  by (simp add: st_one_def on_join_def prop_key_def server0_def createRoom_def num_keys_def Let_def)

lemma on_shoot_absent:
  "map_of (rooms st) (prop_key (room (conns st c))) = None \<Longrightarrow> on_shoot c rnd st = Inr (st, [])"
  by (simp add: on_shoot_def Let_def)

lemma on_shoot_ended:
  "map_of (rooms st) (prop_key (room (conns st c))) = Some rm \<Longrightarrow> gameOver rm \<Longrightarrow>
   on_shoot c rnd st = Inr (st, [])"
  by (simp add: on_shoot_def Let_def)

lemma on_shoot_fires:
  "map_of (rooms st) (prop_key (room (conns st c))) = Some rm \<Longrightarrow> \<not> gameOver rm \<Longrightarrow>
   player (conns st c) = Some p \<Longrightarrow>
   on_shoot c rnd st =
     Inr (st\<lparr> rooms := AList.update (prop_key (room (conns st c)))
                  (rm\<lparr> players := (players rm)(p := fst (shoot p rnd (players rm p) (bullets rm))),
                       bullets := snd (shoot p rnd (players rm p) (bullets rm)) \<rparr>)
                  (rooms st) \<rparr>, [])"
  by (simp add: on_shoot_def Let_def split_beta)

lemma on_shoot_p0_absent:
  "map_of (rooms_p0 st) (prop_key (room (conns_p0 st c))) = None \<Longrightarrow> on_shoot_p0 now c rnd st = Inr (st, [])"
  by (simp add: on_shoot_p0_def Let_def)

lemma on_shoot_p0_not_started:
  "map_of (rooms_p0 st) (prop_key (room (conns_p0 st c))) = Some rm \<Longrightarrow> \<not> started rm \<Longrightarrow>
   on_shoot_p0 now c rnd st = Inr (st, [])"
  by (simp add: on_shoot_p0_def Let_def)

lemma on_shoot_p0_fires:
  "map_of (rooms_p0 st) (prop_key (room (conns_p0 st c))) = Some rm \<Longrightarrow> started rm \<Longrightarrow>
   player (conns_p0 st c) = Some p \<Longrightarrow>
   on_shoot_p0 now c rnd st =
     Inr (st\<lparr> rooms_p0 := AList.update (prop_key (room (conns_p0 st c)))
                  (rm\<lparr> players_p0 := (players_p0 rm)(p := fst (shoot_p0 now rnd p (players_p0 rm p) (bullets_p0 rm))),
                       bullets_p0 := snd (shoot_p0 now rnd p (players_p0 rm p) (bullets_p0 rm)) \<rparr>)
                  (rooms_p0 st) \<rparr>, [])"
  by (simp add: on_shoot_p0_def Let_def split_beta)

lemma bound_iff:
  "player (conns st c) = Some p \<Longrightarrow>
   bound st c \<longleftrightarrow> (\<exists>r. map_of (rooms st) (prop_key (room (conns st c))) = Some r \<and> clients r p = Some c)"
  by (simp add: bound_def split: option.splits)

lemma all_bound_server0: "all_bound server0"
  by (simp add: all_bound_def server0_def)

lemma free_slot:
  "num_keys cl < 2 \<Longrightarrow> cl (if cl Blue \<noteq> None then White else Blue) = None"
  by (auto simp add: num_keys_def split: if_splits)

lemma all_bound_same_clients:
  assumes "all_bound st" "map_of (rooms st) k = Some r" "clients r' = clients r"
  shows "all_bound (st\<lparr> rooms := AList.update k r' (rooms st) \<rparr>)"
  unfolding all_bound_def
proof (intro allI impI)
  fix c p
  assume pl: "player (conns (st\<lparr> rooms := AList.update k r' (rooms st) \<rparr>) c) = Some p"
  then have pl': "player (conns st c) = Some p" by simp
  with assms(1) have "bound st c" by (simp add: all_bound_def)
  then obtain q where q: "map_of (rooms st) (prop_key (room (conns st c))) = Some q" "clients q p = Some c"
    using bound_iff [OF pl'] by blast
  show "bound (st\<lparr> rooms := AList.update k r' (rooms st) \<rparr>) c"
    using q assms(2,3) by (subst bound_iff [OF pl]) (auto simp add: AList.update_conv')
qed

lemma all_bound_on_join:
  assumes "all_bound st" "on_join c dr rb rw st = Inr (st', fs)"
  shows "all_bound st'"
proof -
  let ?key = "prop_key dr"
  let ?rm = "case map_of (rooms st) ?key of None \<Rightarrow> createRoom rb rw | Some r \<Rightarrow> r"
  let ?st1 = "st\<lparr> rooms := AList.update ?key ?rm (rooms st) \<rparr>"
  have ex: "\<And>k q. map_of (rooms st) k = Some q \<Longrightarrow> map_of (rooms ?st1) k = Some q"
    by (auto simp add: AList.update_conv')
  have b1: "all_bound ?st1"
    unfolding all_bound_def
  proof (intro allI impI)
    fix c' p
    assume pl: "player (conns ?st1 c') = Some p"
    then have pl': "player (conns st c') = Some p" by simp
    with assms(1) have "bound st c'" by (simp add: all_bound_def)
    then obtain q where "map_of (rooms st) (prop_key (room (conns st c'))) = Some q" "clients q p = Some c'"
      using bound_iff [OF pl'] by blast
    then show "bound ?st1 c'"
      using ex by (subst bound_iff [OF pl]) auto
  qed
  show ?thesis
  proof (cases "num_keys (clients ?rm) \<ge> 2")
    case True
    with assms(2) have "st' = ?st1" by (simp add: on_join_def Let_def)
    with b1 show ?thesis by simp
  next
    case False
    let ?p = "if clients ?rm Blue \<noteq> None then White else Blue"
    let ?rm1 = "?rm\<lparr> clients := (clients ?rm)(?p := Some c) \<rparr>"
    from False have free: "clients ?rm ?p = None"
      by (intro free_slot) simp
    from False assms(2) have st': "st' = ?st1\<lparr> rooms := AList.update ?key ?rm1 (rooms ?st1),
        conns := (conns ?st1)(c := (conns ?st1 c)\<lparr> room := dr, player := Some ?p \<rparr>) \<rparr>"
      by (simp add: on_join_def Let_def)
    have m1: "map_of (rooms ?st1) ?key = Some ?rm"
      by (simp add: AList.update_conv')
    show ?thesis
      unfolding all_bound_def
    proof (intro allI impI)
      fix c' p
      assume pl: "player (conns st' c') = Some p"
      show "bound st' c'"
      proof (cases "c' = c")
        case True
        with pl have "p = ?p" by (simp add: st')
        then show ?thesis
          using True by (subst bound_iff [OF pl]) (simp add: st' AList.update_conv')
      next
        case False
        with pl have pl1: "player (conns ?st1 c') = Some p" by (simp add: st')
        with b1 have "bound ?st1 c'" by (simp add: all_bound_def)
        then obtain q where q: "map_of (rooms ?st1) (prop_key (room (conns ?st1 c'))) = Some q"
          "clients q p = Some c'"
          using bound_iff [OF pl1] by blast
        show ?thesis
        proof (cases "prop_key (room (conns ?st1 c')) = ?key")
          case True
          with q m1 have "q = ?rm" by simp
          with q(2) free have "p \<noteq> ?p" by auto
          with q(2) \<open>q = ?rm\<close> True False show ?thesis
            by (subst bound_iff [OF pl]) (simp add: st' AList.update_conv')
        next
          case k: False
          with q False show ?thesis
            by (subst bound_iff [OF pl]) (simp add: st' AList.update_conv')
        qed
      qed
    qed
  qed
qed


lemma all_bound_on_shoot:
  assumes "all_bound st" "on_shoot c rnd st = Inr (st', fs)"
  shows "all_bound st'"
proof (cases "map_of (rooms st) (prop_key (room (conns st c)))")
  case None
  with assms show ?thesis by (simp add: on_shoot_def Let_def)
next
  case (Some rm)
  show ?thesis
  proof (cases "gameOver rm \<or> player (conns st c) = None")
    case True
    with Some assms show ?thesis by (auto simp add: on_shoot_def Let_def split: if_splits)
  next
    case False
    then obtain p where p: "player (conns st c) = Some p" and g: "\<not> gameOver rm" by auto
    from assms(2) have "st' = st\<lparr> rooms := AList.update (prop_key (room (conns st c)))
                  (rm\<lparr> players := (players rm)(p := fst (shoot p rnd (players rm p) (bullets rm))),
                       bullets := snd (shoot p rnd (players rm p) (bullets rm)) \<rparr>)
                  (rooms st) \<rparr>"
      by (simp add: on_shoot_fires [OF Some g p])
    then show ?thesis
      using all_bound_same_clients [OF assms(1) Some] by simp
  qed
qed

lemma all_bound_on_rematch:
  assumes "all_bound st" "on_rematch c rb rw st = Inr (st', fs)"
  shows "all_bound st'"
proof (cases "map_of (rooms st) (prop_key (room (conns st c)))")
  case None
  with assms show ?thesis by (simp add: on_rematch_def Let_def)
next
  case (Some rm)
  show ?thesis
  proof (cases "gameOver rm")
    case False
    with Some assms show ?thesis by (simp add: on_rematch_def Let_def)
  next
    case True
    let ?rm1 = "case player (conns st c) of None \<Rightarrow> rm
                | Some p \<Rightarrow> rm\<lparr> rematchReady := (rematchReady rm)(p := True) \<rparr>"
    let ?rm2 = "if rematchReady ?rm1 Blue \<and> rematchReady ?rm1 White then resetRoom rb rw ?rm1 else ?rm1"
    have c: "clients ?rm2 = clients rm"
      by (simp add: resetRoom_def Let_def split: option.splits)
    from True Some assms(2) have "st' = st\<lparr> rooms := AList.update (prop_key (room (conns st c))) ?rm2 (rooms st) \<rparr>"
      by (simp add: on_rematch_def Let_def)
    then show ?thesis
      using all_bound_same_clients [OF assms(1) Some c] by simp
  qed
qed

lemma callback_clients [simp]: "clients (bullet_callback i r) = clients r"
  by (simp add: bullet_callback_eq Let_def)

lemma forEach_clients [simp]: "clients (bullets_forEach n k r) = clients r"
  by (induction n arbitrary: k r) simp_all

lemma tick_room_clients [simp]: "clients (tick_room r) = clients r"
  by (simp add: tick_room_def Let_def)

lemma map_of_tick:
  "map_of (map (\<lambda>(k, r). (k, tick_room r)) rs) k = map_option tick_room (map_of rs k)"
  by (induction rs) auto

lemma all_bound_tick:
  assumes "all_bound st"
  shows "all_bound (tick st)"
  unfolding all_bound_def
proof (intro allI impI)
  fix c p
  assume pl: "player (conns (tick st) c) = Some p"
  then have pl': "player (conns st c) = Some p" by (simp add: tick_def)
  with assms have "bound st c" by (simp add: all_bound_def)
  then obtain q where "map_of (rooms st) (prop_key (room (conns st c))) = Some q" "clients q p = Some c"
    using bound_iff [OF pl'] by blast
  then show "bound (tick st) c"
    by (subst bound_iff [OF pl]) (simp add: tick_def map_of_tick)
qed

lemma all_bound_step:
  assumes "all_bound st" "step e st = Inr st'"
  shows "all_bound st'"
proof (cases e)
  case Tick
  with assms all_bound_tick show ?thesis by auto
next
  case (Msg c m r1 r2)
  with assms(2) obtain fs where om: "on_message c m r1 r2 st = Inr (st', fs)"
    by (auto split: sum.splits)
  show ?thesis
  proof (cases m)
    case (Join dr)
    with om assms(1) show ?thesis by (auto intro: all_bound_on_join)
  next
    case ShootMsg
    with om assms(1) show ?thesis by (auto intro: all_bound_on_shoot)
  next
    case Rematch
    with om assms(1) show ?thesis by (auto intro: all_bound_on_rematch)
  next
    case (Create dr dm)
    with om assms(1) show ?thesis by simp
  next
    case Other
    with om assms(1) show ?thesis by simp
  qed
qed

lemma all_bound_run:
  assumes "all_bound st" "run es st = Inr st'"
  shows "all_bound st'"
  using assms
proof (induction es arbitrary: st)
  case Nil
  then show ?case by simp
next
  case (Cons e es)
  from Cons.prems(2) obtain st1 where s: "step e st = Inr st1" and r: "run es st1 = Inr st'"
    by (auto split: sum.splits)
  from Cons.IH [OF all_bound_step [OF Cons.prems(1) s] r] show ?case .
qed

lemma reachable_bound:
  "run es server0 = Inr st \<Longrightarrow> player (conns st c) = Some p \<Longrightarrow> bound st c"
  using all_bound_run [OF all_bound_server0] by (auto simp add: all_bound_def)


lemma stale_room:
  "map_of (rooms_p0 st_stale) ''R'' = Some (snd (hd (rooms_p0 st_stale)))"
  "player (conns_p0 st_stale 2) = Some White"
  "room (conns_p0 st_stale 2) = Some ''R''"
  "started (snd (hd (rooms_p0 st_stale)))"
  "clients_p0 (snd (hd (rooms_p0 st_stale))) White = Some 4"
  "clients_p0 (snd (hd (rooms_p0 st_stale))) Blue = Some 3"
  "bullets_p0 (snd (hd (rooms_p0 st_stale))) = []"
  "\<not> overheated (players_p0 (snd (hd (rooms_p0 st_stale))) White)"
  by (simp_all add: st_stale_def prop_key_def update_p0_heat Gun_p0_def)

text \<open>
  C6, as stated, fails in \<^verbatim>\<open>part_000\<close>. After the run \<open>stale_trace\<close> the Match stored
  under \<open>R\<close> is the second one, with connections 3 and 4 as its clients. Connection 2
  was white in the Match that the second \<open>create\<close> replaced; it is bound to no slot of
  the current Match, and its \<open>shoot\<close> still reaches \<open>fire()\<close> of the current white body:
  the room has one bullet afterwards, owned by white.
\<close>

theorem stale_connection_fires_counterexample:
  "run_p0 stale_trace server0_p0 = Inr st_stale
   \<and> \<not> bound_p0 st_stale 2
   \<and> (\<exists>r. map_of (rooms_p0 st_stale) ''R'' = Some r \<and> started r \<and> bullets_p0 r = []
          \<and> clients_p0 r Blue = Some 3 \<and> clients_p0 r White = Some 4)
   \<and> (\<exists>st' r'. on_shoot_p0 7001 2 0.5 st_stale = Inr (st', [])
          \<and> map_of (rooms_p0 st') ''R'' = Some r' \<and> length (bullets_p0 r') = 1
          \<and> owner (hd (bullets_p0 r')) = White)"
proof -
  let ?rm = "snd (hd (rooms_p0 st_stale))"
  have k: "map_of (rooms_p0 st_stale) (prop_key (room (conns_p0 st_stale 2))) = Some ?rm"
    by (simp add: stale_room prop_key_def)
  have nb: "\<not> bound_p0 st_stale 2"
    by (simp add: bound_p0_def k stale_room(2,5))
  let ?sh = "shoot_p0 7001 0.5 White (players_p0 ?rm White) (bullets_p0 ?rm)"
  let ?r' = "?rm\<lparr> players_p0 := (players_p0 ?rm)(White := fst ?sh), bullets_p0 := snd ?sh \<rparr>"
  let ?st' = "st_stale\<lparr> rooms_p0 := AList.update (prop_key (room (conns_p0 st_stale 2))) ?r' (rooms_p0 st_stale) \<rparr>"
  have f: "on_shoot_p0 7001 2 0.5 st_stale = Inr (?st', [])"
    by (rule on_shoot_p0_fires [OF k stale_room(4) stale_room(2)])
  have m: "map_of (rooms_p0 ?st') ''R'' = Some ?r'"
    by (simp add: AList.update_conv' prop_key_def stale_room(3))
  have len: "length (bullets_p0 ?r') = 1"
    by (simp add: shoot_p0_cold [OF stale_room(8)] stale_room(7))
  have own: "owner (hd (bullets_p0 ?r')) = White"
    using stale_room(8) by (simp add: shoot_p0_def canShoot_def Let_def stale_room(7))
  from f m len own have fired: "\<exists>st' r'. on_shoot_p0 7001 2 0.5 st_stale = Inr (st', [])
          \<and> map_of (rooms_p0 st') ''R'' = Some r' \<and> length (bullets_p0 r') = 1
          \<and> owner (hd (bullets_p0 r')) = White"
    by blast
  have there: "\<exists>r. map_of (rooms_p0 st_stale) ''R'' = Some r \<and> started r \<and> bullets_p0 r = []
          \<and> clients_p0 r Blue = Some 3 \<and> clients_p0 r White = Some 4"
    using stale_room by blast
  from stale_run nb there fired show ?thesis by blast
qed


text \<open>
  C6, amended. For every inbound fire action of a connection that has a recorded slot,
  the action results in a call to the owning body's \<open>fire()\<close> exactly when the room
  identifier recorded on the connection names an existing Match whose phase is Active
  (\<^verbatim>\<open>server.js\<close>: not \<open>gameOver\<close>; \<^verbatim>\<open>part_000\<close>: \<open>started\<close>); whether the connection is
  still among the clients of that Match is not checked. In every state \<^verbatim>\<open>server.js\<close>
  reaches, a connection with a recorded slot is bound to that Match; in \<^verbatim>\<open>part_000\<close> it
  need not be. When the Match is absent or its phase is not Active, the action is
  dropped: no error, no frame and no change of state.
\<close>

theorem shoot_dispatch:
  "(map_of (rooms st) (prop_key (room (conns st c))) = None \<longrightarrow>
      on_shoot c rnd st = Inr (st, []))
   \<and> (\<forall>rm. map_of (rooms st) (prop_key (room (conns st c))) = Some rm \<and> gameOver rm \<longrightarrow>
      on_shoot c rnd st = Inr (st, []))
   \<and> (\<forall>rm p. map_of (rooms st) (prop_key (room (conns st c))) = Some rm \<and> \<not> gameOver rm
          \<and> player (conns st c) = Some p \<longrightarrow>
      on_shoot c rnd st =
        Inr (st\<lparr> rooms := AList.update (prop_key (room (conns st c)))
                     (rm\<lparr> players := (players rm)(p := fst (shoot p rnd (players rm p) (bullets rm))),
                          bullets := snd (shoot p rnd (players rm p) (bullets rm)) \<rparr>)
                     (rooms st) \<rparr>, []))
   \<and> (\<forall>es p. run es server0 = Inr st \<and> player (conns st c) = Some p \<longrightarrow> bound st c)
   \<and> (map_of (rooms_p0 st0) (prop_key (room (conns_p0 st0 c))) = None \<longrightarrow>
      on_shoot_p0 now c rnd st0 = Inr (st0, []))
   \<and> (\<forall>rm. map_of (rooms_p0 st0) (prop_key (room (conns_p0 st0 c))) = Some rm \<and> \<not> started rm \<longrightarrow>
      on_shoot_p0 now c rnd st0 = Inr (st0, []))
   \<and> (\<forall>rm p. map_of (rooms_p0 st0) (prop_key (room (conns_p0 st0 c))) = Some rm \<and> started rm
          \<and> player (conns_p0 st0 c) = Some p \<longrightarrow>
      on_shoot_p0 now c rnd st0 =
        Inr (st0\<lparr> rooms_p0 := AList.update (prop_key (room (conns_p0 st0 c)))
                     (rm\<lparr> players_p0 := (players_p0 rm)(p := fst (shoot_p0 now rnd p (players_p0 rm p) (bullets_p0 rm))),
                          bullets_p0 := snd (shoot_p0 now rnd p (players_p0 rm p) (bullets_p0 rm)) \<rparr>)
                     (rooms_p0 st0) \<rparr>, []))"
  using on_shoot_absent [of st c rnd] on_shoot_ended [of st c _ rnd] on_shoot_fires [of st c _ _ rnd]
    reachable_bound [of _ st c] on_shoot_p0_absent [of st0 c now rnd] on_shoot_p0_not_started [of st0 c _ now rnd]
    on_shoot_p0_fires [of st0 c _ _ now rnd]
  by blast


theorem shoot_dispatch_witness:
  "map_of (rooms server0) (prop_key (room (conns server0 1))) = None
   \<and> on_shoot 1 0.5 server0 = Inr (server0, [])
   \<and> map_of (rooms (st_one\<lparr> rooms := [(''R'', r_two\<lparr> gameOver := True \<rparr>)] \<rparr>))
         (prop_key (room (conns (st_one\<lparr> rooms := [(''R'', r_two\<lparr> gameOver := True \<rparr>)] \<rparr>) 1)))
       = Some (r_two\<lparr> gameOver := True \<rparr>)
   \<and> on_shoot 1 0.5 (st_one\<lparr> rooms := [(''R'', r_two\<lparr> gameOver := True \<rparr>)] \<rparr>)
       = Inr (st_one\<lparr> rooms := [(''R'', r_two\<lparr> gameOver := True \<rparr>)] \<rparr>, [])
   \<and> map_of (rooms st_one) (prop_key (room (conns st_one 1))) = Some (snd (hd (rooms st_one)))
   \<and> \<not> gameOver (snd (hd (rooms st_one)))
   \<and> player (conns st_one 1) = Some Blue
   \<and> (\<exists>st'. on_shoot 1 0.5 st_one = Inr (st', [])
         \<and> length (bullets (snd (hd (rooms st')))) = 1)
   \<and> run [Msg 1 (Join (Some ''R'')) 0 0] server0 = Inr st_one
   \<and> bound st_one 1
   \<and> map_of (rooms_p0 server0_p0) (prop_key (room (conns_p0 server0_p0 2))) = None
   \<and> on_shoot_p0 7001 2 0.5 server0_p0 = Inr (server0_p0, [])
   \<and> map_of (rooms_p0 (st_stale\<lparr> rooms_p0 := [(''R'', r_skip_p0\<lparr> started := False \<rparr>)] \<rparr>))
         (prop_key (room (conns_p0 (st_stale\<lparr> rooms_p0 := [(''R'', r_skip_p0\<lparr> started := False \<rparr>)] \<rparr>) 2)))
       = Some (r_skip_p0\<lparr> started := False \<rparr>)
   \<and> on_shoot_p0 7001 2 0.5 (st_stale\<lparr> rooms_p0 := [(''R'', r_skip_p0\<lparr> started := False \<rparr>)] \<rparr>)
       = Inr (st_stale\<lparr> rooms_p0 := [(''R'', r_skip_p0\<lparr> started := False \<rparr>)] \<rparr>, [])
   \<and> map_of (rooms_p0 st_stale) (prop_key (room (conns_p0 st_stale 2))) = Some (snd (hd (rooms_p0 st_stale)))
   \<and> started (snd (hd (rooms_p0 st_stale)))
   \<and> player (conns_p0 st_stale 2) = Some White
   \<and> (\<exists>st'. on_shoot_p0 7001 2 0.5 st_stale = Inr (st', [])
         \<and> length (bullets_p0 (snd (hd (rooms_p0 st')))) = 1)"
proof -
  let ?over = "st_one\<lparr> rooms := [(''R'', r_two\<lparr> gameOver := True \<rparr>)] \<rparr>"
  let ?idle = "st_stale\<lparr> rooms_p0 := [(''R'', r_skip_p0\<lparr> started := False \<rparr>)] \<rparr>"
  let ?rm = "snd (hd (rooms st_one))"
  let ?rp = "snd (hd (rooms_p0 st_stale))"
  have a1: "map_of (rooms server0) (prop_key (room (conns server0 1))) = None"
    by (simp add: server0_def)
  have a2: "map_of (rooms ?over) (prop_key (room (conns ?over 1))) = Some (r_two\<lparr> gameOver := True \<rparr>)"
    "gameOver (r_two\<lparr> gameOver := True \<rparr>)"
    by (simp_all add: st_one_def prop_key_def)
  have a3: "map_of (rooms st_one) (prop_key (room (conns st_one 1))) = Some ?rm"
    "\<not> gameOver ?rm" "player (conns st_one 1) = Some Blue"
    by (simp_all add: st_one_def prop_key_def createRoom_def)
  have b1: "map_of (rooms_p0 server0_p0) (prop_key (room (conns_p0 server0_p0 2))) = None"
    by (simp add: server0_p0_def)
  have b2: "map_of (rooms_p0 ?idle) (prop_key (room (conns_p0 ?idle 2))) = Some (r_skip_p0\<lparr> started := False \<rparr>)"
    "\<not> started (r_skip_p0\<lparr> started := False \<rparr>)"
    by (simp_all add: st_stale_def prop_key_def)
  have b3: "map_of (rooms_p0 st_stale) (prop_key (room (conns_p0 st_stale 2))) = Some ?rp"
    "started ?rp" "player (conns_p0 st_stale 2) = Some White"
    by (simp_all add: stale_room prop_key_def)
  have c1: "on_shoot 1 0.5 server0 = Inr (server0, [])"
    using shoot_dispatch [of server0 1 "0.5"] a1 by blast
  have c2: "on_shoot 1 0.5 ?over = Inr (?over, [])"
    using shoot_dispatch [of ?over 1 "0.5"] a2 by blast
  have c3: "on_shoot 1 0.5 st_one =
        Inr (st_one\<lparr> rooms := AList.update (prop_key (room (conns st_one 1)))
                     (?rm\<lparr> players := (players ?rm)(Blue := fst (shoot Blue 0.5 (players ?rm Blue) (bullets ?rm))),
                          bullets := snd (shoot Blue 0.5 (players ?rm Blue) (bullets ?rm)) \<rparr>)
                     (rooms st_one) \<rparr>, [])"
    using shoot_dispatch [of st_one 1 "0.5"] a3 by blast
  have d1: "on_shoot_p0 7001 2 0.5 server0_p0 = Inr (server0_p0, [])"
    using shoot_dispatch [of _ 2 "0.5" server0_p0 7001] b1 by blast
  have d2: "on_shoot_p0 7001 2 0.5 ?idle = Inr (?idle, [])"
    using shoot_dispatch [of _ 2 "0.5" ?idle 7001] b2 by blast
  have d3: "on_shoot_p0 7001 2 0.5 st_stale =
        Inr (st_stale\<lparr> rooms_p0 := AList.update (prop_key (room (conns_p0 st_stale 2)))
                     (?rp\<lparr> players_p0 := (players_p0 ?rp)(White := fst (shoot_p0 7001 0.5 White (players_p0 ?rp White) (bullets_p0 ?rp))),
                          bullets_p0 := snd (shoot_p0 7001 0.5 White (players_p0 ?rp White) (bullets_p0 ?rp)) \<rparr>)
                     (rooms_p0 st_stale) \<rparr>, [])"
    using shoot_dispatch [of _ 2 "0.5" st_stale 7001] b3 by blast
  have e3: "\<exists>st'. on_shoot 1 0.5 st_one = Inr (st', []) \<and> length (bullets (snd (hd (rooms st')))) = 1"
    unfolding c3 by (simp add: st_one_def prop_key_def shoot_def createRoom_def Let_def)
  have f3: "\<exists>st'. on_shoot_p0 7001 2 0.5 st_stale = Inr (st', []) \<and> length (bullets_p0 (snd (hd (rooms_p0 st')))) = 1"
    unfolding d3 using shoot_p0_cold(4) [OF stale_room(8), of 7001 "0.5" White "[]"]
    by (simp add: stale_room(3,7) prop_key_def) (simp add: st_stale_def)
  have g3: "bound st_one 1"
    using shoot_dispatch [of st_one 1 "0.5"] one_run a3(3) by blast
  from a1 a2(1) a3 b1 b2(1) b3 c1 c2 d1 d2 e3 f3 g3 one_run show ?thesis
    by blast
qed


text \<open>
  C10. For every \<open>create\<close> request that carries a room identifier, the handler stores
  under that identifier the Match that \<open>createRoom\<close> returns, whatever was stored there
  before, and then binds the sender to its blue slot; the request is never rejected and
  the result does not depend on the prior Match. The stored Match has a new blue body
  at (90, 640) and a new white body at (330, 640), each at rest, of radius 20, with no
  heat, not overheated, and at the angle drawn for it; it has no projectiles, no bound
  connection but the sender's, is not started and has no countdown deadline.
\<close>

theorem create_replaces_room:
  "(\<exists>st' r'. on_create_p0 c (Some rid) dm rb rw st = Inr (st', [Joined Blue])
        \<and> map_of (rooms_p0 st') rid = Some r'
        \<and> r' = (createRoom_p0 dm rb rw)\<lparr> clients_p0 := (clients_p0 (createRoom_p0 dm rb rw))(Blue := Some c) \<rparr>
        \<and> players_p0 r' Blue
            = \<lparr> x = 90, y = 640, vx = 0, vy = 0, angle = rb * pi * 2, av = 0, radius = 20,
                heat = 0, overheated = False, overheatUntil = 0 \<rparr>
        \<and> players_p0 r' White
            = \<lparr> x = 330, y = 640, vx = 0, vy = 0, angle = rw * pi * 2, av = 0, radius = 20,
                heat = 0, overheated = False, overheatUntil = 0 \<rparr>
        \<and> bullets_p0 r' = []
        \<and> clients_p0 r' Blue = Some c \<and> clients_p0 r' White = None
        \<and> \<not> started r' \<and> startAt r' = 0
        \<and> conns_p0 st' c = \<lparr> room = Some rid, player = Some Blue \<rparr>)
   \<and> players_p0 (createRoom_p0 dm rb rw) Blue = Gun_p0 90 (HEIGHT_p0 - 160) rb
   \<and> players_p0 (createRoom_p0 dm rb rw) White = Gun_p0 (WIDTH_p0 - 90) (HEIGHT_p0 - 160) rw
   \<and> bullets_p0 (createRoom_p0 dm rb rw) = []
   \<and> clients_p0 (createRoom_p0 dm rb rw) = (\<lambda>s. None)
   \<and> \<not> started (createRoom_p0 dm rb rw)
   \<and> startAt (createRoom_p0 dm rb rw) = 0"
  by (simp add: on_create_p0_def Let_def AList.update_conv' prop_key_def)
     (simp add: createRoom_p0_def Gun_p0_def WIDTH_p0_def HEIGHT_p0_def)

theorem create_replaces_room_witness:
  "(\<exists>r. map_of (rooms_p0 st_stale) ''R'' = Some r \<and> started r
        \<and> clients_p0 r Blue = Some 3 \<and> clients_p0 r White = Some 4)
   \<and> (\<exists>st'. on_create_p0 9 (Some ''R'') (Some ''zeroG'') 0 0 st_stale = Inr (st', [Joined Blue])
        \<and> map_of (rooms_p0 st') ''R''
            = Some ((createRoom_p0 (Some ''zeroG'') 0 0)\<lparr> clients_p0 := (\<lambda>s. None)(Blue := Some 9) \<rparr>)
        \<and> conns_p0 st' 9 = \<lparr> room = Some ''R'', player = Some Blue \<rparr>)
   \<and> (\<exists>st' r'. on_create_p0 9 (Some ''R'') (Some ''zeroG'') 0 0 st_stale = Inr (st', [Joined Blue])
        \<and> map_of (rooms_p0 st') ''R'' = Some r'
        \<and> x (players_p0 r' Blue) = 90 \<and> y (players_p0 r' Blue) = 640
        \<and> x (players_p0 r' White) = 330 \<and> y (players_p0 r' White) = 640
        \<and> vx (players_p0 r' Blue) = 0 \<and> vy (players_p0 r' White) = 0
        \<and> heat (players_p0 r' Blue) = 0 \<and> \<not> overheated (players_p0 r' White)
        \<and> bullets_p0 r' = []
        \<and> clients_p0 r' Blue = Some 9 \<and> clients_p0 r' White = None
        \<and> \<not> started r' \<and> startAt r' = 0)"
proof -
  have prior: "\<exists>r. map_of (rooms_p0 st_stale) ''R'' = Some r \<and> started r
        \<and> clients_p0 r Blue = Some 3 \<and> clients_p0 r White = Some 4"
    using stale_room by blast
  have cl: "clients_p0 (createRoom_p0 (Some ''zeroG'') 0 0) = (\<lambda>s. None)"
    by (simp add: createRoom_p0_def)
  from create_replaces_room [of 9 "''R''" "Some ''zeroG''" 0 0 st_stale]
  obtain st' r' where s: "on_create_p0 9 (Some ''R'') (Some ''zeroG'') 0 0 st_stale = Inr (st', [Joined Blue])"
    and m: "map_of (rooms_p0 st') ''R'' = Some r'"
    and r: "r' = (createRoom_p0 (Some ''zeroG'') 0 0)\<lparr> clients_p0 := (clients_p0 (createRoom_p0 (Some ''zeroG'') 0 0))(Blue := Some 9) \<rparr>"
    and pb: "players_p0 r' Blue
            = \<lparr> x = 90, y = 640, vx = 0, vy = 0, angle = 0 * pi * 2, av = 0, radius = 20,
                heat = 0, overheated = False, overheatUntil = 0 \<rparr>"
    and pw: "players_p0 r' White
            = \<lparr> x = 330, y = 640, vx = 0, vy = 0, angle = 0 * pi * 2, av = 0, radius = 20,
                heat = 0, overheated = False, overheatUntil = 0 \<rparr>"
    and rest: "bullets_p0 r' = []" "clients_p0 r' Blue = Some 9" "clients_p0 r' White = None"
      "\<not> started r'" "startAt r' = 0"
    and cn: "conns_p0 st' 9 = \<lparr> room = Some ''R'', player = Some Blue \<rparr>"
    by blast
  from m r have m': "map_of (rooms_p0 st') ''R''
            = Some ((createRoom_p0 (Some ''zeroG'') 0 0)\<lparr> clients_p0 := (\<lambda>s. None)(Blue := Some 9) \<rparr>)"
    unfolding cl by simp
  have f: "x (players_p0 r' Blue) = 90" "y (players_p0 r' Blue) = 640"
    "x (players_p0 r' White) = 330" "y (players_p0 r' White) = 640"
    "vx (players_p0 r' Blue) = 0" "vy (players_p0 r' White) = 0"
    "heat (players_p0 r' Blue) = 0" "\<not> overheated (players_p0 r' White)"
    unfolding pb pw by simp_all
  from prior s m m' f rest cn show ?thesis by blast
qed

subsection \<open>Projectiles outside the Active phase\<close>














lemma rooms_inv_update:
  assumes "rooms_inv t st" "begun_inv t r"
  shows "rooms_inv t (st\<lparr> rooms_p0 := AList.update k r (rooms_p0 st), conns_p0 := cs \<rparr>)"
  using assms by (auto simp add: rooms_inv_def AList.update_conv')






lemma callback_p0_fields [simp]:
  "startAt (bullet_callback_p0 i r) = startAt r"
  "clients_p0 (bullet_callback_p0 i r) = clients_p0 r"
  by (simp_all add: bullet_callback_p0_eq Let_def)

lemma forEach_p0_fields [simp]:
  "startAt (bullets_forEach_p0 n k r) = startAt r"
  "clients_p0 (bullets_forEach_p0 n k r) = clients_p0 r"
  by (induction n arbitrary: k r) simp_all
















end
